theory Spec2Isabelle
  imports Complex_Main
begin

section \<open>Shared types\<close>

text \<open>
  Go byte slices and Go strings are byte sequences; both are modelled as \<open>string\<close>
  (a list of 8-bit characters).  Go's \<open>int\<close> is modelled as \<open>int\<close>: the sizes involved
  are lengths of in-memory buffers, far from the 64-bit bound.

  Go errors are values.  The sentinel errors of the repository (package-level variables
  compared with \<open>==\<close>) are constructors of their own; the struct error types carry their
  message; \<open>errors.New\<close> and \<open>fmt.Errorf\<close> values are kept apart from all of them.
\<close>

text \<open>
  A value of type \<open>interface{}\<close> as the transformer meets it: what \<open>encoding/json\<close>
  decodes with \<open>UseNumber\<close> (nil, a bool, a \<open>json.Number\<close> holding the literal, a string,
  a slice, a map).
\<close>

datatype val =
    VNil
  | VBool bool
  | VNumber string
  | VString string
  | VArray "val list"
  | VObject "(string \<times> val) list"

datatype error =
    ErrorsNew string                \<comment> \<open>\<open>errors.New(msg)\<close>: a bare error value\<close>
  | Errorf string error             \<comment> \<open>\<open>fmt.Errorf(prefix + "%s", err)\<close>\<close>
  | GenError val string             \<comment> \<open>\<open>genError(offender, t)\<close>\<close>
  | ArityError nat nat              \<comment> \<open>the \<open>fmt.Errorf\<close> of \<open>safeColumnTransformer\<close>\<close>
  | ErrCacheMiss                    \<comment> \<open>\<open>memcache.ErrCacheMiss\<close>\<close>
  | ErrMalformedKey                 \<comment> \<open>\<open>memcache.ErrMalformedKey\<close>\<close>
  | ConnectTimeoutError             \<comment> \<open>\<open>*memcache.ConnectTimeoutError\<close>\<close>
  | ErrNotTracked string            \<comment> \<open>struct type \<open>ErrNotTracked{What}\<close>\<close>
  | ErrSkippedColumn string         \<comment> \<open>struct type \<open>ErrSkippedColumn{What}\<close>\<close>
  | ErrInvalidMetadataType string   \<comment> \<open>struct type \<open>ErrInvalidMetadataType{What}\<close>\<close>
  | ErrEmptyRequest
  | ErrUnknownTransform
  | ErrColumnNotFound
  | ErrTooManyRequests              \<comment> \<open>\<open>lookup.ErrTooManyRequests\<close>\<close>
  | ErrExtractingValue              \<comment> \<open>\<open>lookup.ErrExtractingValue\<close>\<close>
  | ErrIDSet
  | ErrBadLookupValue
  | ErrEmptyLookupValue
  | ErrLocalCacheHit
  | ErrRemoteCacheHit
  | ErrFetchSuccess
  | ErrFetchFailure
  | ErrCacheSetFailure

text \<open>
  A call either returns or is unwound by a run-time panic, which carries its message.
\<close>

datatype 'a outcome = Returns 'a | Panics string

section \<open>batcher/batcher.go\<close>

record Config =
  MaxSize :: int
  MaxAge :: string
  BufferLength :: int

text \<open>
  \<open>time.ParseDuration\<close> belongs to the Go standard library; it is a parameter of the
  model, returning the duration in nanoseconds or an error.
\<close>

definition Validate :: "(string \<Rightarrow> error + int) \<Rightarrow> Config \<Rightarrow> error option" where
  "Validate ParseDuration c =
     (case ParseDuration (MaxAge c) of
        Inl err \<Rightarrow> Some err
      | Inr maxAge \<Rightarrow>
          if maxAge \<le> 0 then Some (ErrorsNew ''MaxAge must be a positive value'')
          else if MaxSize c \<le> 0 then Some (ErrorsNew ''MaxSize must be a positive value'')
          else if BufferLength c = 0 then Some (ErrorsNew ''BufferLength must be a positive value'')
          else None)"

text \<open>
  The worker goroutine is the only code that touches \<open>pending\<close>.  It receives, one at a
  time, an entry from the \<open>incoming\<close> channel, an expiry of the timer, or the closing of
  the channel; the list of these is the input of the model.  The calls made to the
  completor are recorded, oldest first, in \<open>completed\<close>.
\<close>

datatype event = Submit string | TimerExpired | Closed

record Batcher =
  config :: Config
  pending :: "string list"
  pendingSize :: int
  completed :: "string list list"

definition NewBatcher :: "Config \<Rightarrow> Batcher" where
  "NewBatcher c = \<lparr>config = c, pending = [], pendingSize = 0, completed = []\<rparr>"

definition Batcher_complete :: "Batcher \<Rightarrow> Batcher" where
  "Batcher_complete b =
     (if length (pending b) = 0 then b
      else b\<lparr>completed := completed b @ [pending b], pending := [], pendingSize := 0\<rparr>)"

definition Batcher_add :: "string \<Rightarrow> Batcher \<Rightarrow> Batcher" where
  "Batcher_add entry b =
     (let s = int (length entry) + pendingSize b;
          b1 = (if s > MaxSize (config b) then Batcher_complete b else b)
      in b1\<lparr>pending := pending b1 @ [entry],
             pendingSize := pendingSize b1 + int (length entry)\<rparr>)"

text \<open>
  \<open>worker\<close>: the loop ends when the channel is closed, and the deferred \<open>complete\<close> runs
  then.  An event list without \<open>Closed\<close> is a worker still waiting in \<open>select\<close>.
\<close>

fun Batcher_worker :: "Batcher \<Rightarrow> event list \<Rightarrow> Batcher" where
  "Batcher_worker b [] = b"
| "Batcher_worker b (TimerExpired # evs) = Batcher_worker (Batcher_complete b) evs"
| "Batcher_worker b (Submit e # evs) = Batcher_worker (Batcher_add e b) evs"
| "Batcher_worker b (Closed # evs) = Batcher_complete b"

section \<open>globber/globber.go\<close>

definition prefix :: char where "prefix = CHR ''[''"
definition separator :: char where "separator = CHR '',''"
definition postfix :: char where "postfix = CHR '']''"
definition version :: char where "version = char_of (1::nat)"

text \<open>
  \<open>scoop_protocol.GlobberConfig\<close> is declared outside the repository; the globber reads
  its \<open>MaxSize\<close>, \<open>MaxAge\<close> and \<open>BufferLength\<close>, the fields of \<open>Config\<close> above.

  The deflate compressor (\<open>flate.NewWriter\<close> or \<open>Reset\<close>, then \<open>Write\<close> and \<open>Close\<close>) is a
  parameter \<open>deflate\<close>: the pending bytes in, the compressed bytes or an error out.
\<close>

record Globber =
  gconfig :: Config
  gpending :: string
  globs :: "string list"

definition NewGlobber :: "Config \<Rightarrow> Globber" where
  "NewGlobber c = \<lparr>gconfig = c, gpending = [], globs = []\<rparr>"

definition Globber__complete :: "(string \<Rightarrow> error + string) \<Rightarrow> Globber \<Rightarrow> Globber \<times> error option" where
  \<comment> \<open>\<open>_complete\<close>\<close>
  "Globber__complete deflate g =
     (case deflate (gpending g) of
        Inl err \<Rightarrow> (g, Some err)
      | Inr compressed \<Rightarrow> (g\<lparr>globs := globs g @ [version # compressed], gpending := []\<rparr>, None))"

definition Globber_complete :: "(string \<Rightarrow> error + string) \<Rightarrow> Globber \<Rightarrow> Globber \<times> error option" where
  "Globber_complete deflate g =
     (if length (gpending g) = 0 then (g, None)
      else case Globber__complete deflate (g\<lparr>gpending := gpending g @ [postfix]\<rparr>) of
             (g1, Some err) \<Rightarrow> (g1, Some (Errorf ''error compressing glob: '' err))
           | (g1, None) \<Rightarrow> (g1, None))"

definition Globber_add :: "(string \<Rightarrow> error + string) \<Rightarrow> string \<Rightarrow> Globber \<Rightarrow> Globber \<times> error option" where
  "Globber_add deflate entry g =
     (let s = int (length entry) + int (length (gpending g));
          r = (if s > MaxSize (gconfig g) then Globber_complete deflate g else (g, None))
      in case r of
           (g1, Some err) \<Rightarrow> (g1, Some (Errorf ''error completing glob: '' err))
         | (g1, None) \<Rightarrow>
             (let g2 = (if length (gpending g1) = 0
                        then g1\<lparr>gpending := gpending g1 @ [prefix]\<rparr>
                        else g1\<lparr>gpending := gpending g1 @ [separator]\<rparr>)
              in (g2\<lparr>gpending := gpending g2 @ entry\<rparr>, None)))"

text \<open>The worker logs an error of \<open>add\<close> or \<open>complete\<close> and goes on.\<close>

fun Globber_worker :: "(string \<Rightarrow> error + string) \<Rightarrow> Globber \<Rightarrow> event list \<Rightarrow> Globber" where
  "Globber_worker deflate g [] = g"
| "Globber_worker deflate g (TimerExpired # evs) = Globber_worker deflate (fst (Globber_complete deflate g)) evs"
| "Globber_worker deflate g (Submit e # evs) = Globber_worker deflate (fst (Globber_add deflate e g)) evs"
| "Globber_worker deflate g (Closed # evs) = fst (Globber_complete deflate g)"

text \<open>The JSON array text of a list of entries, without its brackets.\<close>

fun joinEntries :: "string list \<Rightarrow> string" where
  "joinEntries [] = []"
| "joinEntries [e] = e"
| "joinEntries (e # es) = e @ separator # joinEntries es"

definition jsonArray :: "string list \<Rightarrow> string" where
  "jsonArray es = prefix # joinEntries es @ [postfix]"

section \<open>writer/multee.go\<close>

text \<open>
  The targets are a Go map; \<open>range\<close> visits every key once, in an order the language does
  not fix.  The model takes the targets as the list of (key, writer) pairs in the order of
  the visit.  A writer is a state \<open>'w\<close>; \<open>rot\<close> is the \<open>Rotate\<close> method of the
  \<open>SpadeWriter\<close> interface: the result and the writer afterwards.  The third component of
  the loop state collects what is logged.
\<close>

fun rotateLoop ::
  "('w \<Rightarrow> (bool \<times> error option) \<times> 'w) \<Rightarrow> (string \<times> 'w) list \<Rightarrow> bool \<Rightarrow>
     bool \<times> (string \<times> 'w) list \<times> (string \<times> error) list" where
  "rotateLoop rot [] allDone = (allDone, [], [])"
| "rotateLoop rot ((k, writer) # ts) allDone =
     (case rot writer of
        ((done, Some err), writer') \<Rightarrow>
          (case rotateLoop rot ts False of
             (r, ts', logged) \<Rightarrow> (r, (k, writer') # ts', (k, err) # logged))
      | ((done, None), writer') \<Rightarrow>
          (case rotateLoop rot ts (allDone \<and> done) of
             (r, ts', logged) \<Rightarrow> (r, (k, writer') # ts', logged)))"

definition Rotate ::
  "('w \<Rightarrow> (bool \<times> error option) \<times> 'w) \<Rightarrow> (string \<times> 'w) list \<Rightarrow>
     (bool \<times> error option) \<times> (string \<times> 'w) list \<times> (string \<times> error) list" where
  "Rotate rot targets =
     (case rotateLoop rot targets True of
        (allDone, ts', logged) \<Rightarrow> ((allDone, None), ts', logged))"

section \<open>transformer/redshift_types.go\<close>

text \<open>
  A \<open>ColumnTransformer\<close> is a Go closure; the mapping transformer reads and writes caches
  and counts statistics, so a transformer is a function of its arguments and of a state
  \<open>'s\<close>, returning the string, the error and the state afterwards.
\<close>

type_synonym 's ColumnTransformer = "val list \<Rightarrow> 's \<Rightarrow> (string \<times> error option) \<times> 's"

record 's RedshiftType =
  Transformer :: "'s ColumnTransformer"
  InboundName :: string
  OutboundName :: string
  SupportingColumns :: "string list"

text \<open>
  The loop of \<open>Format\<close> over the inbound column and the supporting columns: \<open>None\<close> is the
  early return with \<open>ErrColumnNotFound\<close>; a missing property is passed as nil when there
  are supporting columns.
\<close>

fun Format_args :: "(string \<rightharpoonup> val) \<Rightarrow> nat \<Rightarrow> string list \<Rightarrow> val list \<Rightarrow> val list option" where
  "Format_args eventProperties nsup [] args = Some args"
| "Format_args eventProperties nsup (col # cols) args =
     (case eventProperties col of
        None \<Rightarrow> if nsup = 0 then None
                else Format_args eventProperties nsup cols (args @ [VNil])
      | Some p \<Rightarrow> Format_args eventProperties nsup cols (args @ [p]))"

definition Format ::
  "'s RedshiftType \<Rightarrow> (string \<rightharpoonup> val) \<Rightarrow> 's \<Rightarrow> (string \<times> string \<times> error option) \<times> 's" where
  "Format r eventProperties s =
     (case Format_args eventProperties (length (SupportingColumns r))
             (InboundName r # SupportingColumns r) [] of
        None \<Rightarrow> (('''', '''', Some ErrColumnNotFound), s)
      | Some args \<Rightarrow>
          (case Transformer r args s of
             ((v, err), s') \<Rightarrow> ((OutboundName r, v, err), s')))"

definition safeColumnTransformer :: "'s ColumnTransformer \<Rightarrow> nat \<Rightarrow> 's ColumnTransformer" where
  "safeColumnTransformer transformer nargs =
     (\<lambda>args s. if length args \<noteq> nargs then (('''', Some (ArityError (length args) nargs)), s)
               else transformer args s)"

text \<open>
  The functions of the Go standard library that the formatters call are parameters:
  \<open>strconv.ParseInt(s, 10, 64)\<close> (which \<open>json.Number.Int64\<close> is too), \<open>strconv.FormatInt(i, 10)\<close>
  and \<open>strings.TrimSpace\<close>.
\<close>

record stdlib =
  ParseInt :: "string \<Rightarrow> error + int"
  FormatInt :: "int \<Rightarrow> string"
  TrimSpace :: "string \<Rightarrow> string"

definition safeParseInt :: "stdlib \<Rightarrow> val \<Rightarrow> error + int" where
  "safeParseInt lib v =
     (case v of
        VNumber t \<Rightarrow> ParseInt lib t
      | VString strTarget \<Rightarrow> ParseInt lib strTarget
      | _ \<Rightarrow> Inl (ErrorsNew ''nil target''))"

definition varcharFormat :: "val \<Rightarrow> string \<times> error option" where
  "varcharFormat arg0 =
     (case arg0 of
        VString str \<Rightarrow> (str, None)
      | _ \<Rightarrow> ('''', Some (GenError arg0 ''Varchar'')))"

text \<open>\<open>GetSingleValueTransform("varchar", ...)\<close>: the formatter behind the arity check.\<close>

definition GetSingleValueTransform_varchar :: "'s ColumnTransformer" where
  "GetSingleValueTransform_varchar =
     safeColumnTransformer (\<lambda>args s. (varcharFormat (args ! 0), s)) 1"

definition RedshiftDatetimeIngestString :: string where
  "RedshiftDatetimeIngestString = ''2006-01-02 15:04:05.999''"

definition fiveDigitYearCutoff :: int where "fiveDigitYearCutoff = 13140000000"
definition timeLowerBound :: int where "timeLowerBound = 1000000000"

text \<open>
  Go's \<open>time\<close> package, as far as the formatters use it.  A \<open>time.Time\<close> is an instant
  (seconds and nanoseconds since the epoch) and a location; \<open>time.Unix\<close> carries
  nanoseconds outside \<open>[0, 1e9)\<close> into the seconds; \<open>In\<close> sets the location.  \<open>Format\<close>
  takes the civil date and time of day of the instant at the offset the time zone
  database gives for the location, and writes the layout: the chunks \<open>2006\<close>, \<open>01\<close>,
  \<open>02\<close>, \<open>15\<close>, \<open>04\<close>, \<open>05\<close> and \<open>.999\<close> (the chunks of the layout the repository uses) as
  the zero-padded year, month, day, hour, minute and second and as the fraction of the
  second cut to three digits with its trailing zeros and an empty fraction left out;
  every other character stands for itself.  What comes from outside is in \<open>timelib\<close>:
  the offset of a location from UTC, in seconds, at an instant; \<open>json.Number.Float64\<close>
  (an error, or the value of the binary64 number, a rational: a JSON number literal
  gives no NaN, and an infinity comes with an error); and \<open>time.ParseInLocation\<close>.
\<close>

datatype Location = Location string

definition Local :: Location where "Local = Location ''Local''"
definition UTC :: Location where "UTC = Location ''UTC''"

text \<open>\<open>PST = getPST()\<close>, the location loaded for \<open>America/Los_Angeles\<close>.\<close>

definition PST :: Location where "PST = Location ''America/Los_Angeles''"

record Time =
  unixSec :: int
  nsec :: int
  loc :: Location

record timelib =
  Float64 :: "string \<Rightarrow> error + rat"
  zoneOffset :: "Location \<Rightarrow> int \<Rightarrow> int"
  ParseInLocation :: "string \<Rightarrow> string \<Rightarrow> Location \<Rightarrow> error + Time"

definition time_Unix :: "int \<Rightarrow> int \<Rightarrow> Time" where
  "time_Unix sec ns =
     \<lparr>unixSec = sec + ns div 1000000000, nsec = ns mod 1000000000, loc = Local\<rparr>"

definition Time_In :: "Time \<Rightarrow> Location \<Rightarrow> Time" where
  "Time_In t l = t\<lparr>loc := l\<rparr>"

record Civil =
  cYear :: int
  cMonth :: int
  cDay :: int
  cHour :: int
  cMinute :: int
  cSecond :: int
  cNanosecond :: int

text \<open>The date of the proleptic Gregorian calendar, from the days since 1970-01-01.\<close>

definition civil_from_days :: "int \<Rightarrow> int \<times> int \<times> int" where
  "civil_from_days z =
     (let z1 = z + 719468;
          era = z1 div 146097;
          doe = z1 mod 146097;
          yoe = (doe - doe div 1460 + doe div 36524 - doe div 146096) div 365;
          y = yoe + era * 400;
          doy = doe - (365 * yoe + yoe div 4 - yoe div 100);
          mp = (5 * doy + 2) div 153;
          d = doy - (153 * mp + 2) div 5 + 1;
          m = (if mp < 10 then mp + 3 else mp - 9)
      in (if m \<le> 2 then y + 1 else y, m, d))"

definition Time_civil :: "timelib \<Rightarrow> Time \<Rightarrow> Civil" where
  "Time_civil lib t =
     (let local = unixSec t + zoneOffset lib (loc t) (unixSec t);
          sod = local mod 86400
      in case civil_from_days (local div 86400) of
           (y, m, d) \<Rightarrow>
             \<lparr>cYear = y, cMonth = m, cDay = d, cHour = sod div 3600,
              cMinute = sod mod 3600 div 60, cSecond = sod mod 60, cNanosecond = nsec t\<rparr>)"

definition digit :: "int \<Rightarrow> char" where
  "digit n = ''0123456789'' ! nat (n mod 10)"

definition pad2 :: "int \<Rightarrow> string" where
  "pad2 n = [digit (n div 10), digit n]"

definition pad4 :: "int \<Rightarrow> string" where
  "pad4 n = [digit (n div 1000), digit (n div 100), digit (n div 10), digit n]"

definition trimZeros :: "string \<Rightarrow> string" where
  "trimZeros ds = rev (dropWhile (\<lambda>c. c = CHR ''0'') (rev ds))"

text \<open>The chunk \<open>.999\<close>, and in general a dot and \<open>n\<close> nines: the first \<open>n\<close> of the nine
  digits of the nanoseconds, without trailing zeros, and nothing at all when none is left.\<close>

definition stdFracSecond9 :: "nat \<Rightarrow> int \<Rightarrow> string" where
  "stdFracSecond9 n ns =
     (let ds = trimZeros (take n (map (\<lambda>k. digit (ns div 10 ^ (8 - k))) [0..<9]))
      in if ds = [] then [] else CHR ''.'' # ds)"

function formatLayout :: "Civil \<Rightarrow> string \<Rightarrow> string" where
  "formatLayout c layout =
     (if layout = [] then []
      else if take 4 layout = ''2006'' then pad4 (cYear c) @ formatLayout c (drop 4 layout)
      else if take 2 layout = ''01'' then pad2 (cMonth c) @ formatLayout c (drop 2 layout)
      else if take 2 layout = ''02'' then pad2 (cDay c) @ formatLayout c (drop 2 layout)
      else if take 2 layout = ''15'' then pad2 (cHour c) @ formatLayout c (drop 2 layout)
      else if take 2 layout = ''04'' then pad2 (cMinute c) @ formatLayout c (drop 2 layout)
      else if take 2 layout = ''05'' then pad2 (cSecond c) @ formatLayout c (drop 2 layout)
      else if take 4 layout = ''.999''
           then stdFracSecond9 3 (cNanosecond c) @ formatLayout c (drop 4 layout)
      else hd layout # formatLayout c (tl layout))"
  by pat_completeness auto
termination
  by (relation "measure (\<lambda>(c, layout). length layout)") auto

declare formatLayout.simps [simp del]

definition Time_Format :: "timelib \<Rightarrow> Time \<Rightarrow> string \<Rightarrow> string" where
  "Time_Format lib t layout = formatLayout (Time_civil lib t) layout"

text \<open>
  \<open>genUnixTimeFormat(timezone)\<close>.  The closure reads \<open>args[0]\<close> only, and
  \<open>GetSingleValueTransform\<close> wraps it in \<open>safeColumnTransformer(..., 1)\<close>; the model takes
  that argument.  The arithmetic of the closure is binary64 arithmetic, and the model's
  is rational: \<open>math.Trunc\<close> and the comparisons are exact, and for a binary64 number
  \<open>i\<close> that passes the lower bound (so \<open>2^29 < i\<close>) the difference \<open>i - seconds\<close> is a
  multiple of \<open>2^-23\<close> below 1, and its product with \<open>1e9 = 2^9 * 5^9\<close> has a numerator
  below \<open>2^44\<close>; both are binary64 numbers again, so neither operation rounds.  The
  conversions \<open>int64(seconds)\<close> and \<open>int64(nanos)\<close> cut the fraction off.
\<close>

definition Trunc :: "rat \<Rightarrow> int" where
  "Trunc x = (if 0 \<le> x then \<lfloor>x\<rfloor> else \<lceil>x\<rceil>)"

definition genUnixTimeFormat :: "timelib \<Rightarrow> Location \<Rightarrow> val \<Rightarrow> string \<times> error option" where
  "genUnixTimeFormat lib timezone arg0 =
     (case arg0 of
        VNumber t \<Rightarrow>
          (case Float64 lib t of
             Inl err \<Rightarrow> ('''', Some err)
           | Inr i \<Rightarrow>
               (let seconds = of_int (Trunc i) :: rat;
                    nanos = (i - seconds) * 1000000000
                in if seconds < of_int timeLowerBound \<or> seconds > of_int fiveDigitYearCutoff
                   then ('''', Some (GenError arg0 ''Time: unix''))
                   else (Time_Format lib
                           (Time_In (time_Unix (Trunc seconds) (Trunc nanos)) timezone)
                           RedshiftDatetimeIngestString, None)))
      | _ \<Rightarrow> ('''', Some (GenError arg0 ''Time: unix'')))"

definition genTimeFormat :: "timelib \<Rightarrow> string \<Rightarrow> val \<Rightarrow> string \<times> error option" where
  "genTimeFormat lib format arg0 =
     (if format = ''unix'' then genUnixTimeFormat lib PST arg0
      else if format = ''unix-utc'' then genUnixTimeFormat lib UTC arg0
      else
        (case arg0 of
           VString str \<Rightarrow>
             (case ParseInLocation lib format str PST of
                Inl err \<Rightarrow> ('''', Some err)
              | Inr t \<Rightarrow> (Time_Format lib t RedshiftDatetimeIngestString, None))
         | _ \<Rightarrow> ('''', Some (GenError arg0 (''Time: '' @ format)))))"

text \<open>
  \<open>MappingTransformerConfig\<close>: the fetcher, the two caches and the statistics are
  interfaces implemented outside the repository; their methods are functions on a state
  \<open>'c\<close> that holds whatever they keep.
\<close>

record 'c MappingTransformerConfig =
  Fetcher_FetchInt64 :: "(string \<times> string) list \<Rightarrow> 'c \<Rightarrow> (error + int) \<times> 'c"
  LocalCache_Get :: "string \<Rightarrow> 'c \<Rightarrow> (error + string) \<times> 'c"
  LocalCache_Set :: "string \<Rightarrow> string \<Rightarrow> 'c \<Rightarrow> error option \<times> 'c"
  RemoteCache_Get :: "string \<Rightarrow> 'c \<Rightarrow> (error + string) \<times> 'c"
  RemoteCache_Set :: "string \<Rightarrow> string \<Rightarrow> 'c \<Rightarrow> error option \<times> 'c"
  Stats_IncrBy :: "string \<Rightarrow> int \<Rightarrow> 'c \<Rightarrow> 'c"

definition recordCacheError ::
  "'c MappingTransformerConfig \<Rightarrow> error option \<Rightarrow> string \<Rightarrow> 'c \<Rightarrow> 'c" where
  "recordCacheError cfg err operation s =
     Stats_IncrBy cfg
       (''transformer.login_to_id.cache_error.'' @ operation @
          (case err of
             None \<Rightarrow> ''.success''
           | Some ErrCacheMiss \<Rightarrow> ''.cache_miss''
           | Some ErrMalformedKey \<Rightarrow> ''.malformed_key''
           | Some ConnectTimeoutError \<Rightarrow> ''.connect_timeout''
           | Some _ \<Rightarrow> ''.other'')) 1 s"

text \<open>
  The body of the closure of \<open>genLoginToIDTransformer\<close>, on \<open>args[0]\<close> and \<open>args[1]\<close>;
  \<open>safeColumnTransformer(..., 2)\<close> has checked that both exist.
\<close>

definition loginToID ::
  "stdlib \<Rightarrow> 'c MappingTransformerConfig \<Rightarrow> val \<Rightarrow> val \<Rightarrow> 'c \<Rightarrow> (string \<times> error option) \<times> 'c" where
  "loginToID lib cfg arg0 arg1 s =
     (case safeParseInt lib arg0 of
        Inr localID \<Rightarrow> ((FormatInt lib localID, Some ErrIDSet), s)
      | Inl _ \<Rightarrow>
          (case arg1 of
             VString login0 \<Rightarrow>
               (let login = TrimSpace lib login0 in
                if length login = 0 then (('''', Some ErrEmptyLookupValue), s)
                else
                  (case LocalCache_Get cfg login s of
                     (Inr cachedID, s1) \<Rightarrow>
                       ((cachedID, Some ErrLocalCacheHit), recordCacheError cfg None ''local_get'' s1)
                   | (Inl _, s1) \<Rightarrow>
                       (case RemoteCache_Get cfg login s1 of
                          (Inr cachedID, s2) \<Rightarrow>
                            (let s3 = recordCacheError cfg None ''remote_get'' s2;
                                 s4 = snd (LocalCache_Set cfg login cachedID s3)
                             in ((cachedID, Some ErrRemoteCacheHit), s4))
                        | (Inl _, s2) \<Rightarrow>
                            (case Fetcher_FetchInt64 cfg [(''login'', login)] s2 of
                               (Inl err, s3) \<Rightarrow>
                                 (if err = ErrExtractingValue
                                  then (let s4 = snd (LocalCache_Set cfg login '''' s3);
                                            (err', s5) = RemoteCache_Set cfg login '''' s4;
                                            s6 = recordCacheError cfg err' ''remote_set'' s5
                                        in (('''', Some ErrFetchFailure), s6))
                                  else (('''', Some ErrFetchFailure), s3))
                             | (Inr fetchedValue, s3) \<Rightarrow>
                                 (let fetchedID = FormatInt lib fetchedValue;
                                      s4 = snd (LocalCache_Set cfg login fetchedID s3);
                                      (err, s5) = RemoteCache_Set cfg login fetchedID s4;
                                      s6 = recordCacheError cfg err ''remote_set'' s5
                                  in if err \<noteq> None
                                     then ((fetchedID, Some ErrCacheSetFailure), s6)
                                     else ((fetchedID, Some ErrFetchSuccess), s6))))))
           | _ \<Rightarrow> (('''', Some ErrBadLookupValue), s)))"

definition genLoginToIDTransformer ::
  "stdlib \<Rightarrow> 'c MappingTransformerConfig \<Rightarrow> 'c ColumnTransformer" where
  "genLoginToIDTransformer lib cfg =
     safeColumnTransformer (\<lambda>args. loginToID lib cfg (args ! 0) (args ! 1)) 2"

section \<open>transformer: \<open>RedshiftTransformer\<close>\<close>

text \<open>
  \<open>reporter.FailMode\<close>, \<open>parser.MixpanelEvent\<close> and \<open>writer.WriteRequest\<close> are declared
  outside the files at hand; the constructors and fields are the ones the transformer
  uses.  \<open>Pstart\<close> is \<open>time.Time\<close>, an instant; \<open>EventTime\<close> is what the transformer stores
  under \<open>time\<close> in the property map; \<open>Record\<close> is a Go map that may be nil.
\<close>

datatype FailMode =
    reporter_None
  | SkippedColumn
  | NonTrackingEvent
  | EmptyRequest
  | UnableToParseData
  | PanickedInProcessing

record MixpanelEvent =
  Event :: string
  Properties :: string
  EventTime :: val
  UUID :: string
  ClientIP :: string
  UserAgent :: string
  EdgeType :: string
  Failure :: FailMode
  Pstart :: int

record WriteRequest =
  Category :: string
  Version :: int
  Line :: string
  Record :: "(string \<rightharpoonup> string) option"
  UUID :: string
  Source :: string
  Failure :: FailMode
  Pstart :: int

text \<open>
  \<open>reporter.StatsLogger\<close>: the counters as the sums of the increments, and the names of
  the timings (their durations come from the clock).
\<close>

record StatsLogger =
  counters :: "string \<Rightarrow> int"
  timings :: "string list"

definition IncrBy :: "string \<Rightarrow> int \<Rightarrow> StatsLogger \<Rightarrow> StatsLogger" where
  "IncrBy name n sl = sl\<lparr>counters := (counters sl)(name := counters sl name + n)\<rparr>"

definition Timing :: "string \<Rightarrow> StatsLogger \<Rightarrow> StatsLogger" where
  "Timing name sl = sl\<lparr>timings := timings sl @ [name]\<rparr>"

text \<open>What a call of the transformer can change: its statistics, the error log, and the
  state of the column transformers.\<close>

record 's world =
  stats :: StatsLogger
  errorLog :: "string list"
  columnState :: 's

text \<open>
  What the transformer takes from outside the repository: the JSON decoder with
  \<open>UseNumber\<close> on the property bytes, \<open>fmt.Sprintf("%q", v)\<close>, the message of
  \<open>ErrSkippedColumn\<close> (printed from the column's names and the error), \<open>json.Marshal\<close> of
  a \<open>nontrackedEvent\<close>, and three constants of \<open>spade\<close> and \<open>scoop_protocol\<close>.
  \<open>Decode\<close> gives the error of \<open>decoder.Decode(&temp)\<close>, or the map it leaves in \<open>temp\<close>:
  the properties of a JSON object, and the nil map (\<open>None\<close>) for the JSON text \<open>null\<close>,
  which \<open>encoding/json\<close> decodes into a map by setting it to nil, without error.
\<close>

record externals =
  Decode :: "string \<Rightarrow> error + (string \<rightharpoonup> val) option"
  Sprintf_q :: "string \<Rightarrow> string"
  Sprintf_problem :: "string \<times> string \<times> string list \<Rightarrow> error option \<Rightarrow> string"
  Marshal :: "string \<Rightarrow> string \<Rightarrow> error + string"
  INTERNAL_EDGE :: string
  EXTERNAL_EDGE :: string
  EDGE_TYPE :: string

text \<open>The two loaders of the transformer, by the methods it calls.\<close>

record 's RedshiftTransformer =
  Configs_GetVersionForEvent :: "string \<Rightarrow> int"
  Configs_GetColumnsForEvent :: "string \<Rightarrow> error + 's RedshiftType list"
  EventMetadataConfigs_GetMetadataValueByType :: "string \<Rightarrow> string \<Rightarrow> string"

text \<open>\<open>results[name]++\<close> on a Go map from names to counts.\<close>

fun incr :: "string \<Rightarrow> (string \<times> nat) list \<Rightarrow> (string \<times> nat) list" where
  "incr name [] = [(name, 1)]"
| "incr name ((k, n) # rest) = (if k = name then (k, Suc n) # rest else (k, n) # incr name rest)"

text \<open>The \<open>switch err\<close> of the column loop: whether the column is skipped, and the
  counters of \<open>results\<close> it increments.\<close>

definition switch_err :: "error option \<Rightarrow> bool \<times> string list" where
  "switch_err err =
     (case err of
        None \<Rightarrow> (False, [''success''])
      | Some ErrTooManyRequests \<Rightarrow> (True, [''tooManyFetchRequests''])
      | Some ErrExtractingValue \<Rightarrow> (True, [''invalidMapping''])
      | Some ErrIDSet \<Rightarrow> (False, [''success'', ''cache.id_set''])
      | Some ErrBadLookupValue \<Rightarrow> (True, [''cache.bad_lookup_value''])
      | Some ErrEmptyLookupValue \<Rightarrow> (True, [''cache.empty_lookup_value''])
      | Some ErrLocalCacheHit \<Rightarrow> (False, [''success'', ''cache.local_cache_hit''])
      | Some ErrRemoteCacheHit \<Rightarrow> (False, [''success'', ''cache.remote_cache_hit''])
      | Some ErrFetchSuccess \<Rightarrow> (False, [''success'', ''cache.fetch_success''])
      | Some ErrFetchFailure \<Rightarrow> (True, [''cache.fetch_failure''])
      | Some ErrCacheSetFailure \<Rightarrow> (False, [''success'', ''cache.set_failure''])
      | Some _ \<Rightarrow> (True, []))"

record 's columnLoop =
  tsvOutput :: string
  kvOutput :: "string \<rightharpoonup> string"
  results :: "(string \<times> nat) list"
  possibleError :: "error option"
  loopState :: 's

definition column_step ::
  "externals \<Rightarrow> (string \<rightharpoonup> val) \<Rightarrow> nat \<Rightarrow> 's RedshiftType \<Rightarrow> 's columnLoop \<Rightarrow> 's columnLoop" where
  "column_step x temp n column l =
     (case Format column temp (loopState l) of
        ((k, v, err), s') \<Rightarrow>
          (let skipped = fst (switch_err err);
               res1 = fold incr (snd (switch_err err)) (results l);
               res2 = (if skipped then incr ''skippedColumn'' res1 else res1);
               perr = (if skipped
                       then Some (ErrSkippedColumn
                              (Sprintf_problem x
                                 (InboundName column, OutboundName column, SupportingColumns column) err))
                       else possibleError l);
               tsv1 = (if n \<noteq> 0 then tsvOutput l @ [CHR 0x09] else tsvOutput l);
               tsv2 = tsv1 @ Sprintf_q x v;
               kv = (if v \<noteq> '''' then (kvOutput l)(k \<mapsto> v) else kvOutput l)
           in \<lparr>tsvOutput = tsv2, kvOutput = kv, results = res2, possibleError = perr,
                loopState = s'\<rparr>))"

fun columns_loop ::
  "externals \<Rightarrow> (string \<rightharpoonup> val) \<Rightarrow> nat \<Rightarrow> 's RedshiftType list \<Rightarrow> 's columnLoop \<Rightarrow> 's columnLoop" where
  "columns_loop x temp n [] l = l"
| "columns_loop x temp n (column # columns) l =
     columns_loop x temp (Suc n) columns (column_step x temp n column l)"

text \<open>
  The server-side fields: the client's \<open>time\<close> is kept as \<open>client_time\<close> and replaced by
  the server's; \<open>ip\<close> and \<open>user_agent\<close> are filled in when the client sent none.
\<close>

definition serverFields :: "MixpanelEvent \<Rightarrow> (string \<rightharpoonup> val) \<Rightarrow> (string \<rightharpoonup> val)" where
  "serverFields event temp0 =
     (let temp1 = (case temp0 ''time'' of
                     Some clientTime \<Rightarrow> temp0(''client_time'' \<mapsto> clientTime)
                   | None \<Rightarrow> temp0);
          temp2 = temp1(''time'' \<mapsto> EventTime event);
          temp3 = (case temp2 ''ip'' of
                     None \<Rightarrow> temp2(''ip'' \<mapsto> VString (ClientIP event))
                   | Some _ \<Rightarrow> temp2);
          temp4 = (if temp3 ''user_agent'' = None \<and> UserAgent event \<noteq> ''''
                   then temp3(''user_agent'' \<mapsto> VString (UserAgent event))
                   else temp3)
      in temp4)"

text \<open>
  The two counters of the edge type: the observed edge type when it is one of the two
  known ones (an error is logged otherwise), and a mismatch with the edge type the
  event's metadata expect.
\<close>

definition edgeTypeStats ::
  "externals \<Rightarrow> 's RedshiftTransformer \<Rightarrow> MixpanelEvent \<Rightarrow> 's world \<Rightarrow> 's world" where
  "edgeTypeStats x t event w =
     (let w1 = (if EdgeType event = INTERNAL_EDGE x \<or> EdgeType event = EXTERNAL_EDGE x
                then w\<lparr>stats := IncrBy (''edge-type.'' @ Event event @ ''.'' @ EdgeType event) 1 (stats w)\<rparr>
                else w\<lparr>errorLog := errorLog w @ [''Invalid edge type'']\<rparr>);
          expectedEdgeType =
            EventMetadataConfigs_GetMetadataValueByType t (Event event) (EDGE_TYPE x);
          w2 = (if expectedEdgeType \<noteq> [] \<and> expectedEdgeType \<noteq> EdgeType event
                then w1\<lparr>stats :=
                       IncrBy (''edge-type-mismatch.'' @ Event event @ ''.'' @ EdgeType event
                                 @ ''.'' @ expectedEdgeType) 1 (stats w1)\<rparr>
                else w1)
      in w2)"

text \<open>
  \<open>transform\<close>.  Reading \<open>temp["time"]\<close> from a nil map finds nothing, and the assignment
  \<open>temp["time"] = event.EventTime\<close> that follows panics on it; the counters of the edge
  type have been written by then.
\<close>

definition transform ::
  "externals \<Rightarrow> 's RedshiftTransformer \<Rightarrow> MixpanelEvent \<Rightarrow> 's world \<Rightarrow>
     (string \<times> (string \<rightharpoonup> string) option \<times> error option) outcome \<times> 's world" where
  "transform x t event w =
     (if Event event = '''' then (Returns ('''', None, Some ErrEmptyRequest), w)
      else
        (case Configs_GetColumnsForEvent t (Event event) of
           Inl err \<Rightarrow> (Returns ('''', None, Some err), w)
         | Inr columns \<Rightarrow>
             (case Decode x (Properties event) of
                Inl err \<Rightarrow> (Returns ('''', None, Some err), w)
              | Inr None \<Rightarrow>
                  (Panics ''assignment to entry in nil map'', edgeTypeStats x t event w)
              | Inr (Some temp0) \<Rightarrow>
                  (let w2 = edgeTypeStats x t event w;
                       temp = serverFields event temp0;
                       l = columns_loop x temp 0 columns
                             \<lparr>tsvOutput = [], kvOutput = Map.empty, results = [],
                              possibleError = None, loopState = columnState w2\<rparr>;
                       w3 = w2\<lparr>columnState := loopState l,
                               stats := fold (\<lambda>(stat, count).
                                          IncrBy (''transformer.'' @ Event event @ ''.'' @ stat) (int count))
                                        (results l) (stats w2)\<rparr>
                   in (Returns (tsvOutput l, Some (kvOutput l), possibleError l), w3)))))"

text \<open>
  \<open>Consume\<close> returns a pointer to a new \<open>WriteRequest\<close>, never nil; a panic of
  \<open>transform\<close> unwinds it before the timing is recorded.
\<close>

definition Consume ::
  "externals \<Rightarrow> 's RedshiftTransformer \<Rightarrow> MixpanelEvent \<Rightarrow> 's world \<Rightarrow>
     WriteRequest outcome \<times> 's world" where
  "Consume x t event w =
     (let ver = Configs_GetVersionForEvent t (Event event) in
      if MixpanelEvent.Failure event \<noteq> reporter_None
      then (Returns \<lparr>Category = Event event, Version = ver, Line = '''', Record = None,
                  UUID = MixpanelEvent.UUID event, Source = Properties event,
                  Failure = MixpanelEvent.Failure event, Pstart = MixpanelEvent.Pstart event\<rparr>, w)
      else
        (case transform x t event w of
           (Panics msg, w1) \<Rightarrow> (Panics msg, w1)
         | (Returns (line, kv, err), w1) \<Rightarrow>
             (let w2 = w1\<lparr>stats := Timing (''transformer.'' @ Event event) (stats w1)\<rparr> in
              case err of
                None \<Rightarrow>
                  (Returns \<lparr>Category = Event event, Version = ver, Line = line, Record = kv,
                         UUID = MixpanelEvent.UUID event, Source = Properties event,
                         Failure = reporter_None, Pstart = MixpanelEvent.Pstart event\<rparr>, w2)
              | Some (ErrNotTracked what) \<Rightarrow>
                  (let dump = (case Marshal x (Event event) (Properties event) of
                                 Inl err' \<Rightarrow> ''''
                               | Inr d \<Rightarrow> d)
                   in (Returns \<lparr>Category = Event event, Version = ver, Line = dump, Record = None,
                             UUID = MixpanelEvent.UUID event, Source = Properties event,
                             Failure = NonTrackingEvent, Pstart = MixpanelEvent.Pstart event\<rparr>, w2))
              | Some (ErrSkippedColumn what) \<Rightarrow>
                  (Returns \<lparr>Category = Event event, Version = ver, Line = line, Record = kv,
                         UUID = MixpanelEvent.UUID event, Source = Properties event,
                         Failure = SkippedColumn, Pstart = MixpanelEvent.Pstart event\<rparr>, w2)
              | Some _ \<Rightarrow>
                  (Returns \<lparr>Category = ''Unknown'', Version = ver, Line = '''', Record = None,
                         UUID = MixpanelEvent.UUID event, Source = Properties event,
                         Failure = EmptyRequest, Pstart = MixpanelEvent.Pstart event\<rparr>, w2))))"

text \<open>
  An instance of \<open>fmt.Sprintf("%q", v)\<close>, that is \<open>strconv.Quote\<close>, for the instances
  below.  It is exact on ASCII: the double quote and the backslash are escaped with a
  backslash, the control characters are written \<open>\a \b \f \n \r \t \v\<close> or \<open>\xNN\<close>, every
  other ASCII character stands for itself; a byte above 0x7F is kept, as Go keeps the
  UTF-8 encoding of a printable character.
\<close>

definition hexdigit :: "nat \<Rightarrow> char" where
  "hexdigit n = ''0123456789abcdef'' ! (n mod 16)"

definition Quote_char :: "char \<Rightarrow> string" where
  "Quote_char c =
     (let n = (of_char c :: nat) in
      if c = CHR 0x22 then [CHR 0x5C, CHR 0x22]
      else if c = CHR 0x5C then [CHR 0x5C, CHR 0x5C]
      else if n = 7 then [CHR 0x5C, CHR ''a'']
      else if n = 8 then [CHR 0x5C, CHR ''b'']
      else if n = 12 then [CHR 0x5C, CHR ''f'']
      else if n = 10 then [CHR 0x5C, CHR ''n'']
      else if n = 13 then [CHR 0x5C, CHR ''r'']
      else if n = 9 then [CHR 0x5C, CHR ''t'']
      else if n = 11 then [CHR 0x5C, CHR ''v'']
      else if n < 32 \<or> n = 127 then [CHR 0x5C, CHR ''x'', hexdigit (n div 16), hexdigit n]
      else [c])"

definition Quote :: "string \<Rightarrow> string" where
  "Quote v = CHR 0x22 # concat (map Quote_char v) @ [CHR 0x22]"

section \<open>event\_metadata: \<open>DynamicLoader.GetMetadataValueByType\<close>\<close>

text \<open>
  The snapshot \<open>d.configs.Metadata\<close> is a map from event names to maps from metadata types
  to rows.  \<open>scoop_protocol.COMMENT\<close> and \<open>scoop_protocol.EDGE_TYPE\<close> are declared outside
  the repository and are parameters.  The Go function returns a string and an error.
\<close>

record EventMetadataRow =
  MetadataValue :: string

definition GetMetadataValueByType ::
  "string \<Rightarrow> string \<Rightarrow> (string \<rightharpoonup> (string \<rightharpoonup> EventMetadataRow)) \<Rightarrow> string \<Rightarrow> string \<Rightarrow>
     string \<times> error option" where
  "GetMetadataValueByType COMMENT EDGE_TYPE' Metadata eventName metadataType =
     (if metadataType \<noteq> COMMENT \<and> metadataType \<noteq> EDGE_TYPE'
      then ('''', Some (ErrInvalidMetadataType (eventName @ '' is not being tracked'')))
      else
        (case Metadata eventName of
           Some eventMetadata \<Rightarrow>
             (case eventMetadata metadataType of
                Some metadataRow \<Rightarrow> (MetadataValue metadataRow, None)
              | None \<Rightarrow> ('''', Some (ErrorsNew ''Not found'')))
         | None \<Rightarrow> ('''', Some (ErrorsNew ''Not found''))))"

section \<open>Predicates used in the statements\<close>

text \<open>
  The invariant of the globber's worker, for a compressor that does not fail: the pending
  buffer is empty or holds \<open>[\<close> and at least one entry of \<open>S\<close>, and every glob emitted so
  far is the version byte and the compressed array text of at least one entry of \<open>S\<close>.
\<close>

definition globOf :: "(string \<Rightarrow> error + string) \<Rightarrow> string set \<Rightarrow> string \<Rightarrow> bool" where
  "globOf deflate S gl \<longleftrightarrow>
     (\<exists>es c. es \<noteq> [] \<and> set es \<subseteq> S \<and> deflate (jsonArray es) = Inr c \<and> gl = version # c)"

definition globInv :: "(string \<Rightarrow> error + string) \<Rightarrow> string set \<Rightarrow> Globber \<Rightarrow> bool" where
  "globInv deflate S g \<longleftrightarrow>
     (gpending g = [] \<or> (\<exists>es. es \<noteq> [] \<and> set es \<subseteq> S \<and> gpending g = prefix # joinEntries es)) \<and>
     (\<forall>gl \<in> set (globs g). globOf deflate S gl)"

text \<open>
  An error value of a Go type of its own (a struct type declared for it), as opposed to
  the value of \<open>errors.New\<close> or \<open>fmt.Errorf\<close> and to the sentinel variables, which are
  all of the one unexported type of package \<open>errors\<close>.
\<close>

definition typedError :: "error \<Rightarrow> bool" where
  "typedError err =
     (case err of
        ErrNotTracked _ \<Rightarrow> True
      | ErrSkippedColumn _ \<Rightarrow> True
      | ErrInvalidMetadataType _ \<Rightarrow> True
      | ConnectTimeoutError \<Rightarrow> True
      | _ \<Rightarrow> False)"

text \<open>The errors that the type switch of \<open>Consume\<close> sends to its \<open>default\<close> case.\<close>

definition defaultCase :: "error \<Rightarrow> bool" where
  "defaultCase err =
     (case err of
        ErrNotTracked _ \<Rightarrow> False
      | ErrSkippedColumn _ \<Rightarrow> False
      | _ \<Rightarrow> True)"

text \<open>
  What \<open>Format\<close> returns for each column of a schema, in the schema's order, the state of
  the column transformers passing from one column to the next.
\<close>

fun format_all ::
  "(string \<rightharpoonup> val) \<Rightarrow> 's RedshiftType list \<Rightarrow> 's \<Rightarrow> (string \<times> string \<times> error option) list" where
  "format_all temp [] s = []"
| "format_all temp (column # columns) s =
     fst (Format column temp s) # format_all temp columns (snd (Format column temp s))"

text \<open>Fields separated by a single TAB.\<close>

fun joinTab :: "string list \<Rightarrow> string" where
  "joinTab [] = []"
| "joinTab [f] = f"
| "joinTab (f # fs) = f @ CHR 0x09 # joinTab fs"

text \<open>
  The record map of a list of formatted columns: every non-empty value stored under its
  outbound name, a later column replacing an earlier one of the same name.
\<close>

definition record_map :: "(string \<times> string \<times> error option) list \<Rightarrow> (string \<rightharpoonup> string)" where
  "record_map outs = fold (\<lambda>(k, v, err) m. if v \<noteq> [] then m(k \<mapsto> v) else m) outs Map.empty"

text \<open>A string of printable ASCII characters without double quote and backslash.\<close>

definition plain :: "string \<Rightarrow> bool" where
  "plain v = list_all (\<lambda>c. 32 \<le> (of_char c :: nat) \<and> (of_char c :: nat) < 127 \<and>
                          c \<noteq> CHR 0x22 \<and> c \<noteq> CHR 0x5C) v"

text \<open>
  The timestamp text in words: the civil date and time of day of a count of
  seconds (the local seconds, the zone's offset already added), as
  \<open>YYYY-MM-DD HH:MM:SS\<close>, followed by the milliseconds of the nanoseconds as a point and
  up to three digits, trailing zeros and an empty fraction left out.
\<close>

definition timestampText :: "int \<Rightarrow> int \<Rightarrow> string" where
  "timestampText localSeconds nanoseconds =
     (case civil_from_days (localSeconds div 86400) of
        (y, m, d) \<Rightarrow>
          (let sod = localSeconds mod 86400;
               millis = nanoseconds div 1000000;
               fff = trimZeros [digit (millis div 100), digit (millis div 10), digit millis]
           in pad4 y @ ''-'' @ pad2 m @ ''-'' @ pad2 d @ '' '' @
              pad2 (sod div 3600) @ '':'' @ pad2 (sod mod 3600 div 60) @ '':'' @ pad2 (sod mod 60) @
              (if fff = [] then [] else CHR ''.'' # fff)))"

section \<open>Instances\<close>

text \<open>
  The values at which the theorems are instantiated.  The schema loader knows the event
  \<open>login\<close>, at version 42, as the loaders of the repository's tests do; the decoder
  yields the given result (an error, the nil map, or a property map); \<open>%q\<close> is \<open>Quote\<close>;
  the event is a \<open>login\<close> with the given property bytes.
\<close>

definition test_externals :: "error + (string \<rightharpoonup> val) option \<Rightarrow> externals" where
  "test_externals decoded =
     \<lparr>Decode = (\<lambda>b. decoded),
      Sprintf_q = Quote,
      Sprintf_problem = (\<lambda>c e. ''Problem parsing''),
      Marshal = (\<lambda>e p. Inr (''dump of '' @ e)),
      INTERNAL_EDGE = ''internal'', EXTERNAL_EDGE = ''external'', EDGE_TYPE = ''edge_type''\<rparr>"

definition test_transformer :: "'s RedshiftType list \<Rightarrow> 's RedshiftTransformer" where
  "test_transformer columns =
     \<lparr>Configs_GetVersionForEvent = (\<lambda>e. 42),
      Configs_GetColumnsForEvent =
        (\<lambda>e. if e = ''login'' then Inr columns else Inl (ErrNotTracked (e @ '' is not being tracked''))),
      EventMetadataConfigs_GetMetadataValueByType = (\<lambda>e m. [])\<rparr>"

definition test_event :: "string \<Rightarrow> MixpanelEvent" where
  "test_event props =
     \<lparr>Event = ''login'', Properties = props, EventTime = VNumber ''1380585602'', UUID = ''uuid1'',
      ClientIP = ''10.1.40.26'', UserAgent = [], EdgeType = ''internal'',
      Failure = reporter_None, Pstart = 0\<rparr>"

definition test_world :: "'s \<Rightarrow> 's world" where
  "test_world s = \<lparr>stats = \<lparr>counters = (\<lambda>n. 0), timings = []\<rparr>, errorLog = [], columnState = s\<rparr>"

text \<open>
  For the mapping transformer: a standard library whose \<open>ParseInt\<close> rejects its input and
  whose \<open>TrimSpace\<close> trims blanks; two caches held as association lists, a fetcher that
  gives a fixed answer, and statistics that record the names counted.
\<close>

definition test_lib :: stdlib where
  "test_lib =
     \<lparr>ParseInt = (\<lambda>s. Inl (ErrorsNew ''invalid syntax'')),
      FormatInt = (\<lambda>i. ''0''),
      TrimSpace = (\<lambda>s. rev (dropWhile (\<lambda>c. c = CHR '' '') (rev (dropWhile (\<lambda>c. c = CHR '' '') s))))\<rparr>"

definition test_mapping ::
  "error + int \<Rightarrow> ((string \<times> string) list \<times> (string \<times> string) list \<times> string list) MappingTransformerConfig" where
  "test_mapping answer =
     \<lparr>Fetcher_FetchInt64 = (\<lambda>args s. (answer, s)),
      LocalCache_Get = (\<lambda>k (l, r, st). (case map_of l k of None \<Rightarrow> Inl ErrCacheMiss | Some v \<Rightarrow> Inr v, (l, r, st))),
      LocalCache_Set = (\<lambda>k v (l, r, st). (None, ((k, v) # l, r, st))),
      RemoteCache_Get = (\<lambda>k (l, r, st). (case map_of r k of None \<Rightarrow> Inl ErrCacheMiss | Some v \<Rightarrow> Inr v, (l, r, st))),
      RemoteCache_Set = (\<lambda>k v (l, r, st). (None, (l, (k, v) # r, st))),
      Stats_IncrBy = (\<lambda>name n (l, r, st). (l, r, st @ [name]))\<rparr>"

text \<open>
  For the timestamp formatter: \<open>Float64\<close> reads a decimal literal without exponent (its
  value is a binary64 number for the literals used below), and the zone
  \<open>America/Los_Angeles\<close> is seven hours behind UTC, as it is in daylight saving time.
\<close>

definition parseDecimal :: "string \<Rightarrow> error + rat" where
  "parseDecimal s =
     (let isDigit = (\<lambda>c. 48 \<le> (of_char c :: int) \<and> (of_char c :: int) \<le> 57);
          number = (\<lambda>ds. foldl (\<lambda>a c. 10 * a + (of_char c - 48)) (0::int) ds);
          whole = takeWhile isDigit s;
          rest = dropWhile isDigit s
      in if whole = [] then Inl (ErrorsNew ''invalid syntax'')
         else if rest = [] then Inr (of_int (number whole))
         else if hd rest = CHR ''.'' \<and> tl rest \<noteq> [] \<and> list_all isDigit (tl rest)
              then Inr (of_int (number whole) + of_int (number (tl rest)) / 10 ^ length (tl rest))
              else Inl (ErrorsNew ''invalid syntax''))"

definition test_timelib :: timelib where
  "test_timelib =
     \<lparr>Float64 = parseDecimal,
      zoneOffset = (\<lambda>l s. if l = PST then - 25200 else 0),
      ParseInLocation = (\<lambda>layout s l. Inl (ErrorsNew ''cannot parse''))\<rparr>"

section \<open>Batcher and Globber: what reaches the completor\<close>

lemma Batcher_complete_nonempty:
  "\<forall>batch \<in> set (completed b). batch \<noteq> [] \<Longrightarrow>
   \<forall>batch \<in> set (completed (Batcher_complete b)). batch \<noteq> []"
  by (auto simp: Batcher_complete_def)

lemma Batcher_add_nonempty:
  "\<forall>batch \<in> set (completed b). batch \<noteq> [] \<Longrightarrow>
   \<forall>batch \<in> set (completed (Batcher_add e b)). batch \<noteq> []"
  by (auto simp: Batcher_add_def Batcher_complete_def Let_def)

lemma Batcher_worker_nonempty:
  "\<forall>batch \<in> set (completed b). batch \<noteq> [] \<Longrightarrow>
   \<forall>batch \<in> set (completed (Batcher_worker b evs)). batch \<noteq> []"
proof (induction b evs rule: Batcher_worker.induct)
  case (2 b evs)
  then show ?case using Batcher_complete_nonempty by simp
next
  case (3 b e evs)
  then show ?case using Batcher_add_nonempty by simp
next
  case (4 b evs)
  then show ?case using Batcher_complete_nonempty by simp
qed simp

lemma joinEntries_snoc:
  "es \<noteq> [] \<Longrightarrow> joinEntries (es @ [e]) = joinEntries es @ separator # e"
  by (induction es rule: joinEntries.induct) auto

lemma joinEntries_Cons:
  "ys \<noteq> [] \<Longrightarrow> joinEntries (e # ys) = e @ separator # joinEntries ys"
  by (cases ys) auto

lemma joinEntries_append:
  "joinEntries (xs @ ys) =
     joinEntries xs @ (if xs = [] \<or> ys = [] then [] else [separator]) @ joinEntries ys"
  by (induction xs rule: joinEntries.induct) (auto simp: joinEntries_Cons)

lemma joinEntries_length_mono:
  "length (joinEntries xs) \<le> length (joinEntries (xs @ ys))"
  by (simp add: joinEntries_append)

lemma Globber_complete_inv:
  assumes tot: "\<forall>p. \<exists>c. deflate p = Inr c" and inv: "globInv deflate S g"
  shows "globInv deflate S (fst (Globber_complete deflate g)) \<and>
         gpending (fst (Globber_complete deflate g)) = [] \<and>
         snd (Globber_complete deflate g) = None"
proof (cases "gpending g = []")
  case True
  with inv show ?thesis by (simp add: Globber_complete_def)
next
  case False
  with inv obtain es where es: "es \<noteq> []" "set es \<subseteq> S" "gpending g = prefix # joinEntries es"
    by (auto simp: globInv_def)
  from tot obtain c where c: "deflate (jsonArray es) = Inr c" by blast
  have "Globber_complete deflate g = (g\<lparr>globs := globs g @ [version # c], gpending := []\<rparr>, None)"
    using es c by (simp add: Globber_complete_def Globber__complete_def jsonArray_def)
  moreover have "globOf deflate S (version # c)"
    using es c by (auto simp: globOf_def)
  ultimately show ?thesis using inv by (simp add: globInv_def)
qed

lemma Globber_add_inv:
  assumes tot: "\<forall>p. \<exists>c. deflate p = Inr c" and inv: "globInv deflate S g" and e: "e \<in> S"
  shows "globInv deflate S (fst (Globber_add deflate e g))"
proof -
  define r where "r = (if int (length e) + int (length (gpending g)) > MaxSize (gconfig g)
                       then Globber_complete deflate g else (g, None))"
  have r: "globInv deflate S (fst r) \<and> snd r = None"
    using Globber_complete_inv[OF tot inv] inv by (simp add: r_def)
  obtain g1 where g1: "r = (g1, None)" using r by (cases r) auto
  have inv1: "globInv deflate S g1" using r g1 by simp
  show ?thesis
  proof (cases "gpending g1 = []")
    case True
    have "gpending (fst (Globber_add deflate e g)) = prefix # joinEntries [e]"
         "globs (fst (Globber_add deflate e g)) = globs g1"
      using g1 True by (simp_all add: Globber_add_def Let_def r_def[symmetric])
    moreover have "[e] \<noteq> []" "set [e] \<subseteq> S" using e by simp_all
    ultimately show ?thesis using inv1 unfolding globInv_def by metis
  next
    case False
    with inv1 obtain es where es: "es \<noteq> []" "set es \<subseteq> S" "gpending g1 = prefix # joinEntries es"
      by (auto simp: globInv_def)
    have "gpending (fst (Globber_add deflate e g)) = prefix # joinEntries (es @ [e])"
         "globs (fst (Globber_add deflate e g)) = globs g1"
      using g1 False es by (simp_all add: Globber_add_def Let_def r_def[symmetric] joinEntries_snoc)
    moreover have "es @ [e] \<noteq> []" "set (es @ [e]) \<subseteq> S" using e es by simp_all
    ultimately show ?thesis using inv1 unfolding globInv_def by metis
  qed
qed

lemma Globber_worker_inv:
  assumes tot: "\<forall>p. \<exists>c. deflate p = Inr c"
  shows "globInv deflate S g \<Longrightarrow> \<forall>e. Submit e \<in> set evs \<longrightarrow> e \<in> S \<Longrightarrow>
         globInv deflate S (Globber_worker deflate g evs)"
proof (induction evs arbitrary: g)
  case Nil
  then show ?case by simp
next
  case (Cons ev evs)
  show ?case
  proof (cases ev)
    case (Submit e)
    then show ?thesis using Cons Globber_add_inv[OF tot] by simp
  next
    case TimerExpired
    then show ?thesis using Cons Globber_complete_inv[OF tot] by simp
  next
    case Closed
    then show ?thesis using Cons Globber_complete_inv[OF tot] by simp
  qed
qed

text \<open>
  Claim C6.  Whatever the sequence of submitted entries, timer expiries and the closing of
  the input, every batch the Batcher hands to its completor is a non-empty list of
  entries; and, with a compressor that does not fail and any decompressor \<open>inflate\<close> that
  inverts it, every glob the Globber hands to its completor decompresses to the JSON array
  text of a non-empty list of submitted entries.  Neither completor is called for an empty
  pending aggregate.
\<close>

theorem never_emits_empty:
  assumes "\<forall>p. \<exists>c. deflate p = Inr c"
      and "\<forall>p c. deflate p = Inr c \<longrightarrow> inflate c = p"
  shows "(\<forall>batch \<in> set (completed (Batcher_worker (NewBatcher cfg) evs)). batch \<noteq> []) \<and>
         (\<forall>glob \<in> set (globs (Globber_worker deflate (NewGlobber gcfg) gevs)).
            \<exists>es c. es \<noteq> [] \<and> set es \<subseteq> {e. Submit e \<in> set gevs} \<and>
                   glob = version # c \<and> inflate c = jsonArray es)"
proof
  show "\<forall>batch \<in> set (completed (Batcher_worker (NewBatcher cfg) evs)). batch \<noteq> []"
    by (rule Batcher_worker_nonempty) (simp add: NewBatcher_def)
next
  have "globInv deflate {e. Submit e \<in> set gevs} (NewGlobber gcfg)"
    by (simp add: globInv_def NewGlobber_def)
  then have "globInv deflate {e. Submit e \<in> set gevs} (Globber_worker deflate (NewGlobber gcfg) gevs)"
    by (rule Globber_worker_inv[OF assms(1)]) simp
  then show "\<forall>glob \<in> set (globs (Globber_worker deflate (NewGlobber gcfg) gevs)).
            \<exists>es c. es \<noteq> [] \<and> set es \<subseteq> {e. Submit e \<in> set gevs} \<and>
                   glob = version # c \<and> inflate c = jsonArray es"
    using assms(2) unfolding globInv_def globOf_def by blast
qed

theorem never_emits_empty_witness:
  "completed (Batcher_worker (NewBatcher \<lparr>MaxSize = 3, MaxAge = ''1s'', BufferLength = 1\<rparr>)
       [TimerExpired, Submit ''ab'', Submit ''cd'', TimerExpired, TimerExpired, Closed])
     = [[''ab''], [''cd'']] \<and>
   [] \<notin> set (completed (Batcher_worker (NewBatcher \<lparr>MaxSize = 3, MaxAge = ''1s'', BufferLength = 1\<rparr>)
       [TimerExpired, Submit ''ab'', Submit ''cd'', TimerExpired, TimerExpired, Closed])) \<and>
   globs (Globber_worker (\<lambda>p. Inr p) (NewGlobber \<lparr>MaxSize = 3, MaxAge = ''1s'', BufferLength = 1\<rparr>)
       [TimerExpired, Submit ''1'', Submit ''2'', TimerExpired, TimerExpired, Closed])
     = [version # ''[1,2]''] \<and>
   (\<exists>es. es \<noteq> [] \<and> set es \<subseteq> {''1'', ''2''} \<and> ''[1,2]'' = jsonArray es)"
proof -
  let ?cfg = "\<lparr>MaxSize = 3, MaxAge = ''1s'', BufferLength = 1\<rparr>"
  let ?evs = "[TimerExpired, Submit ''ab'', Submit ''cd'', TimerExpired, TimerExpired, Closed]"
  let ?gevs = "[TimerExpired, Submit ''1'', Submit ''2'', TimerExpired, TimerExpired, Closed]"
  have tot: "\<forall>p. \<exists>c. (\<lambda>p. Inr p :: error + string) p = Inr c" by simp
  have inv: "\<forall>p c. (\<lambda>p. Inr p :: error + string) p = Inr c \<longrightarrow> (\<lambda>c. c) c = p" by simp
  have run1: "completed (Batcher_worker (NewBatcher ?cfg) ?evs) = [[''ab''], [''cd'']]"
    by (simp add: NewBatcher_def Batcher_complete_def Batcher_add_def Let_def)
  have run2: "globs (Globber_worker (\<lambda>p. Inr p) (NewGlobber ?cfg) ?gevs) = [version # ''[1,2]'']"
    by (simp add: NewGlobber_def Globber_complete_def Globber__complete_def Globber_add_def Let_def
          prefix_def separator_def postfix_def)
  have sub: "{e. Submit e \<in> set ?gevs} = {''1'', ''2''}" by auto
  note inst = never_emits_empty[OF tot inv, of ?cfg ?evs ?cfg ?gevs]
  have "[] \<notin> set (completed (Batcher_worker (NewBatcher ?cfg) ?evs))"
    using inst by blast
  moreover have "\<exists>es. es \<noteq> [] \<and> set es \<subseteq> {''1'', ''2''} \<and> ''[1,2]'' = jsonArray es"
    using inst unfolding run2 sub by simp
  ultimately show ?thesis using run1 run2 by blast
qed

lemma Globber_add_fits:
  assumes "gpending g = prefix # joinEntries es0" "es0 \<noteq> []"
      and "int (length (joinEntries (es0 @ [e]))) \<le> MaxSize (gconfig g)"
  shows "Globber_add deflate e g = (g\<lparr>gpending := prefix # joinEntries (es0 @ [e])\<rparr>, None)"
  using assms by (simp add: Globber_add_def Let_def joinEntries_snoc)

lemma Globber_add_first:
  "gpending g = [] \<Longrightarrow>
   Globber_add deflate e g = (g\<lparr>gpending := prefix # joinEntries [e]\<rparr>, None)"
  by (simp add: Globber_add_def Let_def Globber_complete_def)

lemma Globber_worker_submits:
  assumes "gpending g = prefix # joinEntries es0" "es0 \<noteq> []"
      and "int (length (joinEntries (es0 @ es))) \<le> MaxSize (gconfig g)"
      and "deflate (jsonArray (es0 @ es)) = Inr c"
  shows "Globber_worker deflate g (map Submit es @ [Closed]) =
           g\<lparr>globs := globs g @ [version # c], gpending := []\<rparr>"
  using assms
proof (induction es arbitrary: g es0)
  case Nil
  then show ?case
    by (simp add: Globber_complete_def Globber__complete_def jsonArray_def)
next
  case (Cons e es)
  let ?g1 = "g\<lparr>gpending := prefix # joinEntries (es0 @ [e])\<rparr>"
  have le: "int (length (joinEntries (es0 @ [e]))) \<le> MaxSize (gconfig g)"
    using Cons.prems(3) joinEntries_length_mono[of "es0 @ [e]" es] by simp
  have step: "Globber_add deflate e g = (?g1, None)"
    using Globber_add_fits[OF Cons.prems(1,2) le] .
  have "Globber_worker deflate ?g1 (map Submit es @ [Closed]) =
          ?g1\<lparr>globs := globs ?g1 @ [version # c], gpending := []\<rparr>"
    by (rule Cons.IH[where ?es0.0 = "es0 @ [e]"]) (use Cons.prems in simp_all)
  then show ?case using step by simp
qed

text \<open>
  Claim C2.  A non-empty sequence of entries is submitted to a new Globber and the input
  is closed; the entries are small enough that the size check of \<open>add\<close> never closes a
  glob (the array text without its brackets is at most \<open>MaxSize\<close> bytes long), and the
  compressor succeeds on the array text.  Then exactly one glob is emitted: the version
  byte 1 followed by bytes that any decompressor inverting the compressor turns back into
  \<open>[e1,e2,...,eN]\<close>, the entries in the order of submission.
\<close>

theorem Globber_round_trip:
  assumes "es \<noteq> []"
      and "int (length (joinEntries es)) \<le> MaxSize cfg"
      and "deflate (jsonArray es) = Inr c"
      and "\<forall>p c. deflate p = Inr c \<longrightarrow> inflate c = p"
  shows "\<exists>c. globs (Globber_worker deflate (NewGlobber cfg) (map Submit es @ [Closed]))
               = [char_of (1::nat) # c]
            \<and> inflate c = CHR ''['' # joinEntries es @ '']''"
proof -
  obtain e es' where es: "es = e # es'" using assms(1) by (cases es) auto
  define g1 where "g1 = (NewGlobber cfg)\<lparr>gpending := prefix # joinEntries [e]\<rparr>"
  have first: "Globber_add deflate e (NewGlobber cfg) = (g1, None)"
    unfolding g1_def by (rule Globber_add_first) (simp add: NewGlobber_def)
  have "Globber_worker deflate g1 (map Submit es' @ [Closed]) =
          g1\<lparr>globs := globs g1 @ [version # c], gpending := []\<rparr>"
    by (rule Globber_worker_submits[where ?es0.0 = "[e]"])
       (use assms es in \<open>simp_all add: g1_def NewGlobber_def\<close>)
  then have "globs (Globber_worker deflate (NewGlobber cfg) (map Submit es @ [Closed])) = [version # c]"
    using first es by (simp add: g1_def NewGlobber_def)
  moreover have "inflate c = jsonArray es" using assms(3,4) by blast
  ultimately show ?thesis by (simp add: version_def jsonArray_def prefix_def postfix_def)
qed

theorem Globber_round_trip_witness:
  \<open>\<exists>c. globs (Globber_worker (\<lambda>p. Inr p) (NewGlobber \<lparr>MaxSize = 1000, MaxAge = ''1s'', BufferLength = 1\<rparr>)
            (map Submit [''{"a":1}'', ''{"a":2}'', ''{"a":3}''] @ [Closed]))
         = [char_of (1::nat) # c]
       \<and> c = ''[{"a":1},{"a":2},{"a":3}]''\<close>
proof -
  have h: \<open>\<exists>c. globs (Globber_worker (\<lambda>p. Inr p) (NewGlobber \<lparr>MaxSize = 1000, MaxAge = ''1s'', BufferLength = 1\<rparr>)
            (map Submit [''{"a":1}'', ''{"a":2}'', ''{"a":3}''] @ [Closed]))
         = [char_of (1::nat) # c]
       \<and> (\<lambda>c. c) c = CHR ''['' # joinEntries [''{"a":1}'', ''{"a":2}'', ''{"a":3}''] @ '']''\<close>
    by (rule Globber_round_trip[where c = \<open>jsonArray [''{"a":1}'', ''{"a":2}'', ''{"a":3}'']\<close>])
       (simp_all add: separator_def)
  then show ?thesis by (simp add: separator_def)
qed

section \<open>Multee.Rotate\<close>

lemma rotateLoop_result:
  "rotateLoop rot ts allDone =
     (allDone \<and> list_all (\<lambda>(k, w). fst (rot w) = (True, None)) ts,
      map (\<lambda>(k, w). (k, snd (rot w))) ts,
      concat (map (\<lambda>(k, w). case snd (fst (rot w)) of None \<Rightarrow> [] | Some err \<Rightarrow> [(k, err)]) ts))"
proof (induction ts arbitrary: allDone)
  case Nil
  then show ?case by simp
next
  case (Cons t ts)
  obtain k w where t: "t = (k, w)" by (cases t)
  obtain d e w' where r: "rot w = ((d, e), w')" by (cases "rot w") auto
  show ?case using Cons.IH t r by (cases e) auto
qed

text \<open>
  Claim C7.  \<open>Multee.Rotate\<close> rotates every writer of the target map, whether or not an
  earlier one returned an error: afterwards each target is the writer its own \<open>Rotate\<close>
  left.  The result is true exactly when every target's \<open>Rotate\<close> returned true with a
  nil error; the error result is always nil, and each error of a target is logged under
  its key.
\<close>

theorem Multee_Rotate_all:
  "Rotate rot targets =
     ((list_all (\<lambda>(k, w). fst (rot w) = (True, None)) targets, None),
      map (\<lambda>(k, w). (k, snd (rot w))) targets,
      concat (map (\<lambda>(k, w). case snd (fst (rot w)) of None \<Rightarrow> [] | Some err \<Rightarrow> [(k, err)]) targets))"
  by (simp add: Rotate_def rotateLoop_result)

text \<open>
  An instance: a writer is a pair of the number of rotations it has seen and the answer
  it gives; the second of three targets fails, the third is rotated all the same.
\<close>

theorem Multee_Rotate_all_witness:
  "Rotate (\<lambda>(n, r). (r, (Suc n, r)))
     [(''a'', (0::nat, (True, None))),
      (''b'', (0, (True, Some (ErrorsNew ''disk full'')))),
      (''c'', (0, (True, None)))]
   = ((False, None),
      [(''a'', (1, (True, None))),
       (''b'', (1, (True, Some (ErrorsNew ''disk full'')))),
       (''c'', (1, (True, None)))],
      [(''b'', ErrorsNew ''disk full'')])"
  using Multee_Rotate_all[of "\<lambda>(n, r). (r, (Suc n, r))"
     "[(''a'', (0::nat, (True, None))),
       (''b'', (0, (True, Some (ErrorsNew ''disk full'')))),
       (''c'', (0, (True, None)))]"]
  by simp

section \<open>Config.Validate\<close>

text \<open>
  Claim C8.  \<open>Validate\<close> compares \<open>BufferLength\<close> with zero by \<open>==\<close>, so a negative
  \<open>BufferLength\<close> passes: with \<open>MaxSize = 1\<close>, \<open>MaxAge = "1s"\<close> (one second, 10^9
  nanoseconds) and \<open>BufferLength = -1\<close> the result is nil.
\<close>

theorem Validate_negative_BufferLength:
  "Validate (\<lambda>s. if s = ''1s'' then Inr 1000000000 else Inl (ErrorsNew ''time: invalid duration''))
     \<lparr>MaxSize = 1, MaxAge = ''1s'', BufferLength = - 1\<rparr> = None"
  by (simp add: Validate_def)

section \<open>The TSV line and the record map of \<open>transform\<close>\<close>

lemma joinTab_Cons: "joinTab (f # fs) = f @ concat (map (\<lambda>s. CHR 0x09 # s) fs)"
  by (induction fs arbitrary: f) (auto split: list.splits)

lemma column_step_fields:
  "tsvOutput (column_step x temp n column l) =
     tsvOutput l @ (if n \<noteq> 0 then [CHR 0x09] else []) @ Sprintf_q x (fst (snd (fst (Format column temp (loopState l)))))"
  "kvOutput (column_step x temp n column l) =
     (\<lambda>(k, v, err) m. if v \<noteq> [] then m(k \<mapsto> v) else m) (fst (Format column temp (loopState l))) (kvOutput l)"
  "loopState (column_step x temp n column l) = snd (Format column temp (loopState l))"
  by (simp_all add: column_step_def Let_def split: prod.splits)

lemma columns_loop_tail:
  "0 < n \<Longrightarrow>
   tsvOutput (columns_loop x temp n columns l) =
     tsvOutput l @ concat (map (\<lambda>(k, v, err). CHR 0x09 # Sprintf_q x v) (format_all temp columns (loopState l)))"
proof (induction columns arbitrary: n l)
  case Nil
  then show ?case by simp
next
  case (Cons c cs)
  have "tsvOutput (columns_loop x temp (Suc n) cs (column_step x temp n c l)) =
          tsvOutput (column_step x temp n c l) @
          concat (map (\<lambda>(k, v, err). CHR 0x09 # Sprintf_q x v)
                    (format_all temp cs (loopState (column_step x temp n c l))))"
    by (rule Cons.IH) simp
  then show ?case using Cons.prems
    by (simp add: column_step_fields split: prod.splits)
qed

lemma columns_loop_tsv:
  "tsvOutput (columns_loop x temp 0 columns l) =
     tsvOutput l @ joinTab (map (\<lambda>(k, v, err). Sprintf_q x v) (format_all temp columns (loopState l)))"
proof (cases columns)
  case Nil
  then show ?thesis by simp
next
  case (Cons c cs)
  have "tsvOutput (columns_loop x temp (Suc 0) cs (column_step x temp 0 c l)) =
          tsvOutput (column_step x temp 0 c l) @
          concat (map (\<lambda>(k, v, err). CHR 0x09 # Sprintf_q x v)
                    (format_all temp cs (loopState (column_step x temp 0 c l))))"
    by (rule columns_loop_tail) simp
  then show ?thesis using Cons
    by (simp add: column_step_fields joinTab_Cons split: prod.splits) (simp add: comp_def case_prod_unfold)
qed

lemma columns_loop_kv:
  "kvOutput (columns_loop x temp n columns l) =
     fold (\<lambda>(k, v, err) m. if v \<noteq> [] then m(k \<mapsto> v) else m)
       (format_all temp columns (loopState l)) (kvOutput l)"
  by (induction columns arbitrary: n l) (simp_all add: column_step_fields)

lemma format_all_length: "length (format_all temp columns s) = length columns"
  by (induction columns arbitrary: s) simp_all

lemma format_all_nth:
  "i < length columns \<Longrightarrow>
   \<exists>s. format_all temp columns s0 ! i = fst (Format (columns ! i) temp s)"
proof (induction columns arbitrary: i s0)
  case Nil
  then show ?case by simp
next
  case (Cons c cs)
  show ?case
  proof (cases i)
    case 0
    then show ?thesis by auto
  next
    case (Suc j)
    then have "j < length cs" using Cons.prems by simp
    from Cons.IH[OF this, of "snd (Format c temp s0)"] show ?thesis using Suc by simp
  qed
qed

lemma edgeTypeStats_columnState [simp]:
  "columnState (edgeTypeStats x t event w) = columnState w"
  by (simp add: edgeTypeStats_def Let_def)

lemma transform_eval:
  assumes "Event event \<noteq> []"
      and "Configs_GetColumnsForEvent t (Event event) = Inr columns"
      and "Decode x (Properties event) = Inr (Some temp0)"
      and "edgeTypeStats x t event w = w2"
      and "columns_loop x (serverFields event temp0) 0 columns
             \<lparr>tsvOutput = [], kvOutput = Map.empty, results = [], possibleError = None,
              loopState = columnState w\<rparr> = l"
  shows "transform x t event w =
           (Returns (tsvOutput l, Some (kvOutput l), possibleError l),
            w2\<lparr>columnState := loopState l,
               stats := fold (\<lambda>(stat, count).
                          IncrBy (''transformer.'' @ Event event @ ''.'' @ stat) (int count))
                        (results l) (stats w2)\<rparr>)"
  using assms(1-3) unfolding assms(4)[symmetric] assms(5)[symmetric]
  by (simp add: transform_def Let_def)

lemma transform_outputs:
  assumes "Event event \<noteq> []"
      and "Configs_GetColumnsForEvent t (Event event) = Inr columns"
      and "Decode x (Properties event) = Inr (Some temp0)"
  shows "\<exists>perr. fst (transform x t event w) =
           Returns (joinTab (map (\<lambda>(k, v, err). Sprintf_q x v)
                              (format_all (serverFields event temp0) columns (columnState w))),
                    Some (record_map (format_all (serverFields event temp0) columns (columnState w))),
                    perr)"
  using assms
  by (simp add: transform_def Let_def columns_loop_tsv columns_loop_kv record_map_def)

lemma fold_upd_lookup:
  "fold (\<lambda>(k, v, err) m. if v \<noteq> [] then m(k \<mapsto> v) else m) outs m k =
     (case filter (\<lambda>(k', v, err). k' = k \<and> v \<noteq> []) outs of
        [] \<Rightarrow> m k
      | os \<Rightarrow> Some (fst (snd (last os))))"
proof (induction outs arbitrary: m)
  case Nil
  then show ?case by simp
next
  case (Cons a outs)
  obtain k' v e where a: "a = (k', v, e)" by (cases a)
  show ?case unfolding a
    by (simp add: Cons.IH split: list.splits)
qed

lemma record_map_lookup:
  "record_map outs k =
     (case filter (\<lambda>(k', v, err). k' = k \<and> v \<noteq> []) outs of
        [] \<Rightarrow> None
      | os \<Rightarrow> Some (fst (snd (last os))))"
  unfolding record_map_def fold_upd_lookup by simp

lemma filter_distinct_key:
  "distinct (map fst outs) \<Longrightarrow>
   filter (\<lambda>(k', v, err). k' = k \<and> v \<noteq> []) outs = [] \<or>
   (\<exists>v e. (k, v, e) \<in> set outs \<and> v \<noteq> [] \<and>
          filter (\<lambda>(k', v, err). k' = k \<and> v \<noteq> []) outs = [(k, v, e)])"
proof (induction outs)
  case Nil
  then show ?case by simp
next
  case (Cons a outs)
  obtain k' v e where a: "a = (k', v, e)" by (cases a)
  show ?case
  proof (cases "k' = k \<and> v \<noteq> []")
    case True
    then have "filter (\<lambda>(k', v, err). k' = k \<and> v \<noteq> []) outs = []"
      using Cons.prems a by (auto simp: filter_empty_conv image_iff)
    then show ?thesis using True a by auto
  next
    case False
    then show ?thesis using Cons a by auto
  qed
qed

lemma record_map_distinct:
  assumes "distinct (map fst outs)"
  shows "record_map outs k = Some v \<longleftrightarrow> v \<noteq> [] \<and> (\<exists>e. (k, v, e) \<in> set outs)"
proof
  assume "record_map outs k = Some v"
  then show "v \<noteq> [] \<and> (\<exists>e. (k, v, e) \<in> set outs)"
    using filter_distinct_key[OF assms, of k] unfolding record_map_lookup
    by (auto split: list.splits)
next
  assume r: "v \<noteq> [] \<and> (\<exists>e. (k, v, e) \<in> set outs)"
  then obtain e where e: "(k, v, e) \<in> set outs" by blast
  then have ne: "filter (\<lambda>(k', v, err). k' = k \<and> v \<noteq> []) outs \<noteq> []"
    using r by (auto simp: filter_empty_conv)
  then obtain v' e' where f: "(k, v', e') \<in> set outs"
       "filter (\<lambda>(k', v, err). k' = k \<and> v \<noteq> []) outs = [(k, v', e')]"
    using filter_distinct_key[OF assms, of k] by auto
  have "v' = v"
    using assms e f(1) by (metis distinct_map eq_key_imp_eq_value fst_conv inj_onD prod.inject)
  then show "record_map outs k = Some v"
    unfolding record_map_lookup f(2) by simp
qed

text \<open>
  A column that formats to a non-empty value is returned under its outbound name: the
  only other return of \<open>Format\<close> is that of a missing column, with an empty value.  So the
  record map is the same when every column is entered under its outbound name.
\<close>

lemma Format_key:
  "fst (snd (fst (Format r temp s))) \<noteq> [] \<Longrightarrow> fst (fst (Format r temp s)) = OutboundName r"
  by (auto simp: Format_def split: option.splits prod.splits if_splits)

lemma fold_named_gen:
  assumes "\<And>k k' e m. f (k, [], e) m = f (k', [], e) m"
  shows "fold f (format_all temp columns s) m =
         fold f (map (\<lambda>(c, k, v, err). (OutboundName c, v, err))
                   (zip columns (format_all temp columns s))) m"
proof (induction columns arbitrary: s m)
  case Nil
  then show ?case by simp
next
  case (Cons c cs)
  obtain k v e where f: "fst (Format c temp s) = (k, v, e)" by (cases "fst (Format c temp s)")
  have "f (k, v, e) m = f (OutboundName c, v, e) m"
  proof (cases "v = []")
    case True
    then show ?thesis using assms by simp
  next
    case False
    then have "k = OutboundName c" using Format_key[of c temp s] f by simp
    then show ?thesis by simp
  qed
  then show ?case using f by (simp add: Cons.IH)
qed

lemma record_map_named:
  "record_map (format_all temp columns s) =
   record_map (map (\<lambda>(c, k, v, err). (OutboundName c, v, err))
                 (zip columns (format_all temp columns s)))"
  unfolding record_map_def by (rule fold_named_gen) simp

lemma named_set:
  assumes "length outs = length columns"
  shows "(k, v, e) \<in> set (map (\<lambda>(c, k, v, err). (OutboundName c, v, err)) (zip columns outs)) \<longleftrightarrow>
         (\<exists>i < length columns. OutboundName (columns ! i) = k \<and> snd (outs ! i) = (v, e))"
proof
  assume "(k, v, e) \<in> set (map (\<lambda>(c, k, v, err). (OutboundName c, v, err)) (zip columns outs))"
  then obtain c k' where m: "(c, k', v, e) \<in> set (zip columns outs)" and k: "k = OutboundName c"
    by auto
  then obtain i where "i < length columns" "columns ! i = c" "outs ! i = (k', v, e)"
    using assms by (auto simp: set_zip)
  then show "\<exists>i < length columns. OutboundName (columns ! i) = k \<and> snd (outs ! i) = (v, e)"
    using k by auto
next
  assume "\<exists>i < length columns. OutboundName (columns ! i) = k \<and> snd (outs ! i) = (v, e)"
  then obtain i where i: "i < length columns" "OutboundName (columns ! i) = k" "snd (outs ! i) = (v, e)"
    by blast
  then have "(columns ! i, outs ! i) \<in> set (zip columns outs)"
    using assms by (auto simp: set_zip)
  moreover have "(k, v, e) = (\<lambda>(c, k, v, err). (OutboundName c, v, err)) (columns ! i, outs ! i)"
    using i by (cases "outs ! i") auto
  ultimately show "(k, v, e) \<in> set (map (\<lambda>(c, k, v, err). (OutboundName c, v, err)) (zip columns outs))"
    unfolding set_map by (rule rev_image_eqI)
qed

lemma named_keys:
  "length outs = length columns \<Longrightarrow>
   map fst (map (\<lambda>(c, k, v, err). (OutboundName c, v, err)) (zip columns outs)) =
   map OutboundName columns"
  by (induction columns outs rule: list_induct2') auto

lemma record_map_OutboundName:
  assumes "distinct (map OutboundName columns)"
  shows "record_map (format_all temp columns s) k = Some v \<longleftrightarrow>
         v \<noteq> [] \<and> (\<exists>i < length columns. OutboundName (columns ! i) = k \<and>
                       fst (snd (format_all temp columns s ! i)) = v)"
proof -
  let ?outs = "format_all temp columns s"
  let ?named = "map (\<lambda>(c, k, v, err). (OutboundName c, v, err)) (zip columns ?outs)"
  have len: "length ?outs = length columns" by (rule format_all_length)
  have d: "distinct (map fst ?named)" using assms named_keys[OF len] by simp
  have "record_map ?outs k = Some v \<longleftrightarrow> record_map ?named k = Some v"
    using record_map_named[of temp columns s] by simp
  also have "\<dots> \<longleftrightarrow> v \<noteq> [] \<and> (\<exists>e. (k, v, e) \<in> set ?named)"
    by (rule record_map_distinct[OF d])
  also have "\<dots> \<longleftrightarrow> v \<noteq> [] \<and> (\<exists>e. \<exists>i < length columns. OutboundName (columns ! i) = k \<and>
                                      snd (?outs ! i) = (v, e))"
    by (simp only: named_set[OF len])
  also have "\<dots> \<longleftrightarrow> v \<noteq> [] \<and> (\<exists>i < length columns. OutboundName (columns ! i) = k \<and>
                                      fst (snd (?outs ! i)) = v)"
    by (auto simp: prod_eq_iff)
  finally show ?thesis .
qed

lemma Quote_char_plain:
  "32 \<le> (of_char c :: nat) \<Longrightarrow> (of_char c :: nat) < 127 \<Longrightarrow> c \<noteq> CHR 0x22 \<Longrightarrow> c \<noteq> CHR 0x5C \<Longrightarrow>
   Quote_char c = [c]"
  by (simp add: Quote_char_def Let_def)

lemma Quote_plain: "plain v \<Longrightarrow> Quote v = CHR 0x22 # v @ [CHR 0x22]"
proof -
  assume "plain v"
  then have "concat (map Quote_char v) = v"
    by (induction v) (simp_all add: plain_def Quote_char_plain)
  then show ?thesis by (simp add: Quote_def)
qed

lemma Format_varchar:
  "Format \<lparr>Transformer = GetSingleValueTransform_varchar, InboundName = i, OutboundName = k,
           SupportingColumns = []\<rparr> temp s =
     (case temp i of
        None \<Rightarrow> (([], [], Some ErrColumnNotFound), s)
      | Some p \<Rightarrow> ((k, fst (varcharFormat p), snd (varcharFormat p)), s))"
  by (simp add: Format_def GetSingleValueTransform_varchar_def safeColumnTransformer_def
           split: option.splits prod.splits)

text \<open>
  Claim C1, as the code has it.  The event has a non-empty name with a schema, and its
  properties decode to a map.  Let \<open>outs\<close> be what \<open>Format\<close> returns for the columns of the
  schema, in the schema's order (the entry at index \<open>i\<close> is what \<open>Format\<close> returns for the
  column at index \<open>i\<close>).  Then \<open>transform\<close> returns, and the TSV line has one field for
  each column, in that order, separated by single TABs, and each field is
  \<open>fmt.Sprintf("%q", v)\<close> of the column's formatted value \<open>v\<close>: with Go's quoting that is
  \<open>v\<close> between double quotes when \<open>v\<close> is printable ASCII without double quote and
  backslash (the empty value gives the empty quoted field), and an escaped form
  otherwise.  The record map holds, under each name, the last non-empty value formatted
  under that name and nothing for a name with none; so when the \<open>OutboundName\<close>s of the
  columns of the schema are distinct, it holds the pair (outbound name, value) exactly
  for the columns whose formatted value is not empty.
\<close>

theorem transform_tsv_and_record:
  assumes "Event event \<noteq> []"
      and "Configs_GetColumnsForEvent t (Event event) = Inr columns"
      and "Decode x (Properties event) = Inr (Some temp0)"
  shows "\<exists>outs perr. outs = format_all (serverFields event temp0) columns (columnState w) \<and>
           length outs = length columns \<and>
           (\<forall>i < length columns.
              \<exists>s. outs ! i = fst (Format (columns ! i) (serverFields event temp0) s)) \<and>
           fst (transform x t event w) =
             Returns (joinTab (map (\<lambda>(k, v, err). Sprintf_q x v) outs), Some (record_map outs), perr) \<and>
           (\<forall>k. record_map outs k =
                  (case filter (\<lambda>(k', v, err). k' = k \<and> v \<noteq> []) outs of
                     [] \<Rightarrow> None
                   | os \<Rightarrow> Some (fst (snd (last os))))) \<and>
           (distinct (map OutboundName columns) \<longrightarrow>
              (\<forall>k v. record_map outs k = Some v \<longleftrightarrow>
                       v \<noteq> [] \<and> (\<exists>i < length columns. OutboundName (columns ! i) = k \<and>
                                     fst (snd (outs ! i)) = v))) \<and>
           (Sprintf_q x = Quote \<longrightarrow>
              (\<forall>k v err. (k, v, err) \<in> set outs \<and> plain v \<longrightarrow>
                 Sprintf_q x v = CHR 0x22 # v @ [CHR 0x22]))"
proof -
  let ?temp = "serverFields event temp0"
  let ?outs = "format_all ?temp columns (columnState w)"
  obtain perr where r: "fst (transform x t event w) =
      Returns (joinTab (map (\<lambda>(k, v, err). Sprintf_q x v) ?outs), Some (record_map ?outs), perr)"
    using transform_outputs[OF assms, of w] by (rule exE)
  have len: "length ?outs = length columns" by (rule format_all_length)
  have nth: "\<forall>i < length columns. \<exists>s. ?outs ! i = fst (Format (columns ! i) ?temp s)"
    by (intro allI impI format_all_nth)
  have look: "\<forall>k. record_map ?outs k =
                  (case filter (\<lambda>(k', v, err). k' = k \<and> v \<noteq> []) ?outs of
                     [] \<Rightarrow> None
                   | os \<Rightarrow> Some (fst (snd (last os))))"
    by (intro allI record_map_lookup)
  have dist: "distinct (map OutboundName columns) \<longrightarrow>
              (\<forall>k v. record_map ?outs k = Some v \<longleftrightarrow>
                       v \<noteq> [] \<and> (\<exists>i < length columns. OutboundName (columns ! i) = k \<and>
                                     fst (snd (?outs ! i)) = v))"
    by (intro allI impI record_map_OutboundName)
  have quote: "Sprintf_q x = Quote \<longrightarrow>
              (\<forall>k v err. (k, v, err) \<in> set ?outs \<and> plain v \<longrightarrow>
                 Sprintf_q x v = CHR 0x22 # v @ [CHR 0x22])"
    by (auto simp: Quote_plain)
  show ?thesis
    apply (rule exI[of _ ?outs])
    apply (rule exI[of _ perr])
    apply (intro conjI refl r len nth look dist quote)
    done
qed

text \<open>
  An instance: three varchar columns of distinct outbound names, the second of which is
  missing from the event.
\<close>

theorem transform_tsv_and_record_witness:
  \<open>distinct (map OutboundName
       [\<lparr>Transformer = GetSingleValueTransform_varchar :: unit ColumnTransformer, InboundName = ''distinct_id'',
            OutboundName = ''id'', SupportingColumns = []\<rparr>,
           \<lparr>Transformer = GetSingleValueTransform_varchar, InboundName = ''referrer'',
            OutboundName = ''referrer'', SupportingColumns = []\<rparr>,
           \<lparr>Transformer = GetSingleValueTransform_varchar, InboundName = ''country'',
            OutboundName = ''country'', SupportingColumns = []\<rparr>]) \<and>
   (case fst (transform
       (test_externals (Inr (Some (map_of [(''distinct_id'', VString ''abc''), (''country'', VString ''US'')]))))
       (test_transformer
          [\<lparr>Transformer = GetSingleValueTransform_varchar, InboundName = ''distinct_id'',
            OutboundName = ''id'', SupportingColumns = []\<rparr>,
           \<lparr>Transformer = GetSingleValueTransform_varchar, InboundName = ''referrer'',
            OutboundName = ''referrer'', SupportingColumns = []\<rparr>,
           \<lparr>Transformer = GetSingleValueTransform_varchar, InboundName = ''country'',
            OutboundName = ''country'', SupportingColumns = []\<rparr>])
       (test_event ''{"distinct_id":"abc","country":"US"}'')
       (test_world ())) of
      Returns (line, kv, perr) \<Rightarrow>
        line = ''"abc"'' @ [CHR 0x09] @ ''""'' @ [CHR 0x09] @ ''"US"'' \<and>
        map_option (\<lambda>kv. (kv ''id'', kv ''referrer'', kv ''country'', kv [])) kv =
          Some (Some ''abc'', None, Some ''US'', None)
    | Panics msg \<Rightarrow> False)\<close>
proof -
  let ?props = "map_of [(''distinct_id'', VString ''abc''), (''country'', VString ''US'')]"
  let ?cols = "[\<lparr>Transformer = GetSingleValueTransform_varchar, InboundName = ''distinct_id'',
            OutboundName = ''id'', SupportingColumns = []\<rparr>,
           \<lparr>Transformer = GetSingleValueTransform_varchar, InboundName = ''referrer'',
            OutboundName = ''referrer'', SupportingColumns = []\<rparr>,
           \<lparr>Transformer = GetSingleValueTransform_varchar, InboundName = ''country'',
            OutboundName = ''country'', SupportingColumns = []\<rparr>] :: unit RedshiftType list"
  let ?x = "test_externals (Inr (Some ?props))"
  let ?t = "test_transformer ?cols"
  let ?e = \<open>test_event ''{"distinct_id":"abc","country":"US"}''\<close>
  let ?outs = "[(''id'', ''abc'', None), ([], [], Some ErrColumnNotFound), (''country'', ''US'', None)]"
  have h1: "Event ?e \<noteq> []" by (simp add: test_event_def)
  have h2: "Configs_GetColumnsForEvent ?t (Event ?e) = Inr ?cols"
    by (simp add: test_event_def test_transformer_def)
  have h3: "Decode ?x (Properties ?e) = Inr (Some ?props)" by (simp add: test_externals_def)
  have outs: "format_all (serverFields ?e ?props) ?cols (columnState (test_world ())) = ?outs"
    by (simp add: Format_varchar serverFields_def Let_def test_event_def varcharFormat_def)
  have q: "Sprintf_q ?x = Quote" by (simp add: test_externals_def)
  have p: "plain ''abc''" "plain ''US''" "plain []" by (simp_all add: plain_def)
  have d: "distinct (map OutboundName ?cols)" by simp
  from transform_tsv_and_record[OF h1 h2 h3, of "test_world ()"]
  obtain perr where
        r: "fst (transform ?x ?t ?e (test_world ())) =
              Returns (joinTab [Sprintf_q ?x ''abc'', Sprintf_q ?x [], Sprintf_q ?x ''US''],
                       Some (record_map ?outs), perr)"
    and kv: "\<And>k v. record_map ?outs k = Some v \<longleftrightarrow>
                v \<noteq> [] \<and> (\<exists>i < length ?cols. OutboundName (?cols ! i) = k \<and> fst (snd (?outs ! i)) = v)"
    and ql: "Sprintf_q ?x ''abc'' = CHR 0x22 # ''abc'' @ [CHR 0x22]"
            "Sprintf_q ?x ''US'' = CHR 0x22 # ''US'' @ [CHR 0x22]"
            "Sprintf_q ?x [] = CHR 0x22 # [] @ [CHR 0x22]"
    unfolding outs using q p d by auto
  have ex3: "\<And>P. (\<exists>i < length ?cols. P i) \<longleftrightarrow> P 0 \<or> P 1 \<or> P 2"
    by (auto simp: less_Suc_eq numeral_3_eq_3 numeral_2_eq_2)
  have kv': "\<And>k v. record_map ?outs k = Some v \<longleftrightarrow>
                (k = ''id'' \<and> v = ''abc'') \<or> (k = ''country'' \<and> v = ''US'')"
    unfolding kv ex3 by auto
  have look: "record_map ?outs ''id'' = Some ''abc''" "record_map ?outs ''referrer'' = None"
             "record_map ?outs ''country'' = Some ''US''" "record_map ?outs [] = None"
    using kv' by (simp_all add: not_Some_eq[symmetric] del: not_Some_eq not_None_eq)
  show ?thesis
    unfolding r ql using d look by simp
qed

text \<open>
  Two columns without outbound name, as in the schema of the repository's processor
  tests, and a value with a double quote in it.  The first field is not the value
  between double quotes: its quote is escaped with a backslash.  The record map has the
  second column's value under the shared name, and the first column's pair is not in it
  although its value is not empty.
\<close>

theorem transform_tsv_escapes_and_overwrites:
  \<open>(case fst (transform
       (test_externals (Inr (Some (map_of [(''distinct_id'', VString ''a"b''), (''country'', VString ''US'')]))))
       (test_transformer
          [\<lparr>Transformer = GetSingleValueTransform_varchar, InboundName = ''distinct_id'',
            OutboundName = [], SupportingColumns = []\<rparr>,
           \<lparr>Transformer = GetSingleValueTransform_varchar, InboundName = ''country'',
            OutboundName = [], SupportingColumns = []\<rparr>])
       (test_event (''{"distinct_id":"a'' @ [CHR 0x5C] @ ''"b","country":"US"}''))
       (test_world ())) of
      Returns (line, kv, perr) \<Rightarrow>
        line = [CHR 0x22, CHR ''a'', CHR 0x5C, CHR 0x22, CHR ''b'', CHR 0x22, CHR 0x09,
                CHR 0x22, CHR ''U'', CHR ''S'', CHR 0x22] \<and>
        line \<noteq> (CHR 0x22 # ''a"b'' @ [CHR 0x22]) @ [CHR 0x09] @ (CHR 0x22 # ''US'' @ [CHR 0x22]) \<and>
        map_option (\<lambda>kv. kv []) kv = Some (Some ''US'')
    | Panics msg \<Rightarrow> False)\<close>
proof -
  let ?props = \<open>map_of [(''distinct_id'', VString ''a"b''), (''country'', VString ''US'')]\<close>
  let ?cols = "[\<lparr>Transformer = GetSingleValueTransform_varchar, InboundName = ''distinct_id'',
            OutboundName = [], SupportingColumns = []\<rparr>,
           \<lparr>Transformer = GetSingleValueTransform_varchar, InboundName = ''country'',
            OutboundName = [], SupportingColumns = []\<rparr>] :: unit RedshiftType list"
  let ?x = "test_externals (Inr (Some ?props))"
  let ?t = "test_transformer ?cols"
  let ?e = \<open>test_event (''{"distinct_id":"a'' @ [CHR 0x5C] @ ''"b","country":"US"}'')\<close>
  have h1: "Event ?e \<noteq> []" by (simp add: test_event_def)
  have h2: "Configs_GetColumnsForEvent ?t (Event ?e) = Inr ?cols"
    by (simp add: test_event_def test_transformer_def)
  have h3: "Decode ?x (Properties ?e) = Inr (Some ?props)" by (simp add: test_externals_def)
  have outs: \<open>format_all (serverFields ?e ?props) ?cols (columnState (test_world ())) =
                [([], ''a"b'', None), ([], ''US'', None)]\<close>
    by (simp add: Format_varchar serverFields_def Let_def test_event_def varcharFormat_def)
  have q: "Sprintf_q ?x = Quote" by (simp add: test_externals_def)
  from transform_outputs[OF h1 h2 h3, of "test_world ()", unfolded outs q]
  show ?thesis
    by (auto simp: record_map_def Quote_def Quote_char_def Let_def)
qed

section \<open>The mapping transformer when the fetcher is over quota\<close>

lemma loginToID_fetch_error:
  assumes "safeParseInt lib arg0 = Inl e0"
      and "TrimSpace lib login0 \<noteq> []"
      and "LocalCache_Get cfg (TrimSpace lib login0) s = (Inl e1, s1)"
      and "RemoteCache_Get cfg (TrimSpace lib login0) s1 = (Inl e2, s2)"
      and "Fetcher_FetchInt64 cfg [(''login'', TrimSpace lib login0)] s2 = (Inl err, s3)"
      and "err \<noteq> ErrExtractingValue"
  shows "genLoginToIDTransformer lib cfg [arg0, VString login0] s = (([], Some ErrFetchFailure), s3)"
  using assms
  by (simp add: genLoginToIDTransformer_def safeColumnTransformer_def loginToID_def Let_def)

lemma Format_login_column:
  "Format \<lparr>Transformer = genLoginToIDTransformer test_lib (test_mapping (Inl ErrTooManyRequests)),
           InboundName = ''user_id'', OutboundName = ''user_id'', SupportingColumns = [''login'']\<rparr>
     (serverFields (test_event p) (map_of [(''login'', VString ''bob'')])) ([], [], [])
   = ((''user_id'', [], Some ErrFetchFailure), ([], [], []))"
proof -
  have "genLoginToIDTransformer test_lib (test_mapping (Inl ErrTooManyRequests))
      [VNil, VString ''bob''] ([], [], []) = (([], Some ErrFetchFailure), ([], [], []))"
    by (rule loginToID_fetch_error[where ?s1.0 = "([], [], [])" and ?s2.0 = "([], [], [])"
                 and err = ErrTooManyRequests])
       (simp_all add: safeParseInt_def test_lib_def test_mapping_def)
  then show ?thesis
    by (simp add: Format_def serverFields_def Let_def test_event_def)
qed

text \<open>
  Claim C3.  The id does not parse, the login \<open>bob\<close> is in neither cache, and the fetcher
  answers \<open>lookup.ErrTooManyRequests\<close>.  The mapping transformer returns
  \<open>ErrFetchFailure\<close> for every error of the fetcher, so the column loop of \<open>transform\<close>
  counts \<open>cache.fetch_failure\<close> and its case for \<open>lookup.ErrTooManyRequests\<close> is not
  reached: the counter \<open>tooManyFetchRequests\<close> stays at zero.  The column is skipped (an
  empty quoted field, \<open>ErrSkippedColumn\<close>), and neither cache is written.
\<close>

theorem too_many_requests_counted_as_fetch_failure:
  \<open>(case fst (transform (test_externals (Inr (Some (map_of [(''login'', VString ''bob'')]))))
      (test_transformer
         [\<lparr>Transformer = genLoginToIDTransformer test_lib (test_mapping (Inl ErrTooManyRequests)),
           InboundName = ''user_id'', OutboundName = ''user_id'', SupportingColumns = [''login'']\<rparr>])
      (test_event ''{"login":"bob"}'') (test_world ([], [], []))) of
      Returns (line, kv, perr) \<Rightarrow>
        line = ''""'' \<and> perr = Some (ErrSkippedColumn ''Problem parsing'')
    | Panics msg \<Rightarrow> False) \<and>
   counters (stats (snd (transform (test_externals (Inr (Some (map_of [(''login'', VString ''bob'')]))))
      (test_transformer
         [\<lparr>Transformer = genLoginToIDTransformer test_lib (test_mapping (Inl ErrTooManyRequests)),
           InboundName = ''user_id'', OutboundName = ''user_id'', SupportingColumns = [''login'']\<rparr>])
      (test_event ''{"login":"bob"}'') (test_world ([], [], [])))))
      ''transformer.login.cache.fetch_failure'' = 1 \<and>
   counters (stats (snd (transform (test_externals (Inr (Some (map_of [(''login'', VString ''bob'')]))))
      (test_transformer
         [\<lparr>Transformer = genLoginToIDTransformer test_lib (test_mapping (Inl ErrTooManyRequests)),
           InboundName = ''user_id'', OutboundName = ''user_id'', SupportingColumns = [''login'']\<rparr>])
      (test_event ''{"login":"bob"}'') (test_world ([], [], [])))))
      ''transformer.login.tooManyFetchRequests'' = 0 \<and>
   columnState (snd (transform (test_externals (Inr (Some (map_of [(''login'', VString ''bob'')]))))
      (test_transformer
         [\<lparr>Transformer = genLoginToIDTransformer test_lib (test_mapping (Inl ErrTooManyRequests)),
           InboundName = ''user_id'', OutboundName = ''user_id'', SupportingColumns = [''login'']\<rparr>])
      (test_event ''{"login":"bob"}'') (test_world ([], [], [])))) = ([], [], [])\<close>
proof -
  let ?col = "\<lparr>Transformer = genLoginToIDTransformer test_lib (test_mapping (Inl ErrTooManyRequests)),
           InboundName = ''user_id'', OutboundName = ''user_id'', SupportingColumns = [''login'']\<rparr>"
  let ?x = "test_externals (Inr (Some (map_of [(''login'', VString ''bob'')])))"
  let ?e = \<open>test_event ''{"login":"bob"}''\<close>
  let ?l0 = "\<lparr>tsvOutput = [], kvOutput = Map.empty, results = [], possibleError = None,
              loopState = ([], [], [])\<rparr> :: ((string \<times> string) list \<times> (string \<times> string) list \<times> string list) columnLoop"
  have fmt: "Format ?col (serverFields ?e (map_of [(''login'', VString ''bob'')])) (loopState ?l0)
               = ((''user_id'', [], Some ErrFetchFailure), ([], [], []))"
    using Format_login_column by simp
  have step: "column_step ?x (serverFields ?e (map_of [(''login'', VString ''bob'')])) 0 ?col ?l0 =
      \<lparr>tsvOutput = [CHR 0x22, CHR 0x22], kvOutput = Map.empty,
       results = [(''cache.fetch_failure'', 1), (''skippedColumn'', 1)],
       possibleError = Some (ErrSkippedColumn ''Problem parsing''),
       loopState = ([], [], [])\<rparr>"
    unfolding column_step_def fmt
    by (simp add: switch_err_def test_externals_def Quote_def Let_def)
  have loop: "columns_loop ?x (serverFields ?e (map_of [(''login'', VString ''bob'')])) 0 [?col] ?l0 =
      \<lparr>tsvOutput = [CHR 0x22, CHR 0x22], kvOutput = Map.empty,
       results = [(''cache.fetch_failure'', 1), (''skippedColumn'', 1)],
       possibleError = Some (ErrSkippedColumn ''Problem parsing''),
       loopState = ([], [], [])\<rparr>"
    by (simp only: columns_loop.simps step)
  have edge: "edgeTypeStats ?x (test_transformer [?col]) ?e (test_world ([], [], [])) =
      \<lparr>stats = IncrBy ''edge-type.login.internal'' 1 \<lparr>counters = (\<lambda>n. 0), timings = []\<rparr>,
       errorLog = [], columnState = ([], [], [])\<rparr>"
    by (simp add: edgeTypeStats_def test_externals_def test_transformer_def test_event_def
          test_world_def Let_def)
  have h1: "Event ?e \<noteq> []" by (simp add: test_event_def)
  have h2: "Configs_GetColumnsForEvent (test_transformer [?col]) (Event ?e) = Inr [?col]"
    by (simp add: test_event_def test_transformer_def)
  have h3: "Decode ?x (Properties ?e) = Inr (Some (map_of [(''login'', VString ''bob'')]))"
    by (simp add: test_externals_def)
  have cs: "columnState (test_world ([], [], [])) = ([], [], [])"
    by (simp add: test_world_def)
  note tr = transform_eval[OF h1 h2 h3 edge, unfolded cs, OF loop]
  show ?thesis unfolding tr by (simp add: IncrBy_def test_event_def)
qed

section \<open>\<open>Consume\<close>: the failure of the request and the fields it copies\<close>

lemma column_step_possibleError:
  "possibleError l = None \<or> (\<exists>m. possibleError l = Some (ErrSkippedColumn m)) \<Longrightarrow>
   possibleError (column_step x temp n column l) = None \<or>
   (\<exists>m. possibleError (column_step x temp n column l) = Some (ErrSkippedColumn m))"
  by (auto simp: column_step_def Let_def split: prod.splits)

lemma columns_loop_possibleError:
  "possibleError l = None \<or> (\<exists>m. possibleError l = Some (ErrSkippedColumn m)) \<Longrightarrow>
   possibleError (columns_loop x temp n columns l) = None \<or>
   (\<exists>m. possibleError (columns_loop x temp n columns l) = Some (ErrSkippedColumn m))"
proof (induction columns arbitrary: n l)
  case Nil
  then show ?case by simp
next
  case (Cons c cs)
  show ?case using Cons.IH[OF column_step_possibleError[OF Cons.prems]] by simp
qed

lemma transform_loop_error:
  assumes "Event event \<noteq> []" "Configs_GetColumnsForEvent t (Event event) = Inr columns"
          "Decode x (Properties event) = Inr (Some temp0)"
  shows "\<exists>line kv err. fst (transform x t event w) = Returns (line, kv, err) \<and>
           (err = None \<or> (\<exists>m. err = Some (ErrSkippedColumn m)))"
  using assms
  by (simp add: transform_def Let_def columns_loop_possibleError)

lemma ex_Returns:
  "(\<exists>r. a = Returns r \<and> P r) \<longleftrightarrow> (case a of Returns r \<Rightarrow> P r | Panics msg \<Rightarrow> False)"
  by (cases a) auto

lemma Consume_Panics:
  assumes "MixpanelEvent.Failure event = reporter_None"
      and "fst (transform x t event w) = Panics msg"
  shows "fst (Consume x t event w) = Panics msg"
  using assms by (cases "transform x t event w") (simp add: Consume_def Let_def)

lemma Consume_Failure:
  assumes "MixpanelEvent.Failure event = reporter_None"
      and "fst (transform x t event w) = Returns (line, kv, err)"
  shows "(case fst (Consume x t event w) of
            Returns r \<Rightarrow> WriteRequest.Failure r = EmptyRequest
          | Panics msg \<Rightarrow> False) \<longleftrightarrow>
         (\<exists>e. err = Some e \<and> defaultCase e)"
proof -
  obtain w1 where tr: "transform x t event w = (Returns (line, kv, err), w1)"
    using assms(2) by (cases "transform x t event w") auto
  show ?thesis
  proof (cases err)
    case None
    then show ?thesis using assms(1) tr by (simp add: Consume_def Let_def)
  next
    case (Some e)
    then show ?thesis using assms(1) tr
      by (cases e) (simp_all add: Consume_def Let_def defaultCase_def)
  qed
qed

text \<open>
  Claim C4, as the code has it.  For an event that arrives without failure, the request
  carries \<open>EmptyRequest\<close> exactly when \<open>transform\<close> fails with an error that is neither an
  \<open>ErrNotTracked\<close> nor an \<open>ErrSkippedColumn\<close>: when the event's name is empty, when the
  schema loader fails with such an error, or when the properties do not decode.  An empty
  name always gives \<open>EmptyRequest\<close>; a non-empty name gives it too in the other two cases.
\<close>

theorem EmptyRequest_iff:
  assumes "MixpanelEvent.Failure event = reporter_None"
  shows "(\<exists>r. fst (Consume x t event w) = Returns r \<and> WriteRequest.Failure r = EmptyRequest) \<longleftrightarrow>
         (Event event = [] \<or>
          (\<exists>err. Configs_GetColumnsForEvent t (Event event) = Inl err \<and> defaultCase err) \<or>
          (\<exists>columns err. Configs_GetColumnsForEvent t (Event event) = Inr columns \<and>
              Decode x (Properties event) = Inl err \<and> defaultCase err))"
proof (cases "Event event = []")
  case True
  then have "fst (transform x t event w) = Returns ([], None, Some ErrEmptyRequest)"
    by (simp add: transform_def)
  from Consume_Failure[OF assms this] True show ?thesis
    unfolding ex_Returns by (simp add: defaultCase_def)
next
  case ne: False
  show ?thesis
  proof (cases "Configs_GetColumnsForEvent t (Event event)")
    case (Inl err)
    then have "fst (transform x t event w) = Returns ([], None, Some err)"
      using ne by (simp add: transform_def)
    from Consume_Failure[OF assms this] ne Inl show ?thesis
      unfolding ex_Returns by simp
  next
    case (Inr columns)
    show ?thesis
    proof (cases "Decode x (Properties event)")
      case (Inl err)
      then have "fst (transform x t event w) = Returns ([], None, Some err)"
        using ne Inr by (simp add: transform_def)
      from Consume_Failure[OF assms this] ne Inr Inl show ?thesis
        unfolding ex_Returns by simp
    next
      case dec: (Inr temp)
      show ?thesis
      proof (cases temp)
        case None
        then have "fst (transform x t event w) = Panics ''assignment to entry in nil map''"
          using ne Inr dec by (simp add: transform_def)
        from Consume_Panics[OF assms this] ne Inr dec show ?thesis by simp
      next
        case (Some temp0)
        obtain line kv err where
          tr: "fst (transform x t event w) = Returns (line, kv, err)"
          and e: "err = None \<or> (\<exists>m. err = Some (ErrSkippedColumn m))"
          using transform_loop_error[OF ne Inr dec[unfolded Some], of w] by blast
        have "\<not> (\<exists>e. err = Some e \<and> defaultCase e)"
          using e by (auto simp: defaultCase_def)
        with Consume_Failure[OF assms tr] ne Inr dec show ?thesis
          unfolding ex_Returns by simp
      qed
    qed
  qed
qed

theorem EmptyRequest_iff_witness:
  \<open>\<exists>r. fst (Consume (test_externals (Inr (Some Map.empty))) (test_transformer [])
             ((test_event ''{}'')\<lparr>Event := []\<rparr>) (test_world ())) = Returns r \<and>
        WriteRequest.Failure r = EmptyRequest\<close>
  using EmptyRequest_iff[of \<open>(test_event ''{}'')\<lparr>Event := []\<rparr>\<close> \<open>test_externals (Inr (Some Map.empty))\<close>
          \<open>test_transformer ([] :: unit RedshiftType list)\<close> \<open>test_world ()\<close>]
  by (simp add: test_event_def)

text \<open>
  The event \<open>login\<close> has a schema and arrives without failure, and its property bytes
  are cut short: the decoder fails, and the request carries \<open>EmptyRequest\<close> with the
  category \<open>Unknown\<close>, although the name is not empty.
\<close>

theorem EmptyRequest_nonempty_name:
  "fst (Consume (test_externals (Inl (ErrorsNew ''unexpected end of JSON input'')))
          (test_transformer []) (test_event ''{'') (test_world ()))
     = Returns \<lparr>Category = ''Unknown'', Version = 42, Line = [], Record = None, UUID = ''uuid1'',
             Source = ''{'', Failure = EmptyRequest, Pstart = 0\<rparr> \<and>
   Event (test_event ''{'') = ''login'' \<and>
   MixpanelEvent.Failure (test_event ''{'') = reporter_None"
proof -
  let ?x = "test_externals (Inl (ErrorsNew ''unexpected end of JSON input''))"
  let ?t = "test_transformer [] :: unit RedshiftTransformer"
  have tr: "transform ?x ?t (test_event ''{'') (test_world ()) =
              (Returns ([], None, Some (ErrorsNew ''unexpected end of JSON input'')), test_world ())"
    by (simp add: transform_def test_externals_def test_transformer_def test_event_def)
  have "fst (Consume ?x ?t (test_event ''{'') (test_world ()))
     = Returns \<lparr>Category = ''Unknown'', Version = 42, Line = [], Record = None, UUID = ''uuid1'',
             Source = ''{'', Failure = EmptyRequest, Pstart = 0\<rparr>"
    unfolding Consume_def Let_def tr by (simp add: test_transformer_def test_event_def)
  then show ?thesis by (simp add: test_event_def)
qed

text \<open>
  Every request that \<open>Consume\<close> returns carries the event's UUID, its property bytes as
  source, and its \<open>Pstart\<close>.  \<open>Consume\<close> returns on every path but one: it panics exactly
  when an event without earlier failure, with a non-empty name and a schema, has
  properties that decode to the nil map.
\<close>

lemma Consume_Returns_fields:
  "fst (Consume x t event w) = Returns r \<Longrightarrow>
     WriteRequest.UUID r = MixpanelEvent.UUID event \<and> Source r = Properties event \<and>
     WriteRequest.Pstart r = MixpanelEvent.Pstart event"
proof (cases "MixpanelEvent.Failure event \<noteq> reporter_None")
  case True
  assume "fst (Consume x t event w) = Returns r"
  with True show ?thesis by (auto simp: Consume_def Let_def)
next
  case False
  assume c: "fst (Consume x t event w) = Returns r"
  obtain o1 w1 where tr: "transform x t event w = (o1, w1)" by (cases "transform x t event w")
  show ?thesis
  proof (cases o1)
    case (Panics msg)
    then show ?thesis using c False tr by (simp add: Consume_def Let_def)
  next
    case (Returns res)
    obtain line kv err where res: "res = (line, kv, err)" by (cases res)
    show ?thesis
    proof (cases err)
      case None
      then show ?thesis using c False tr Returns res by (auto simp: Consume_def Let_def)
    next
      case (Some e)
      then show ?thesis using c False tr Returns res
        by (cases e) (auto simp: Consume_def Let_def)
    qed
  qed
qed

lemma Consume_Panics_iff:
  "(\<exists>msg. fst (Consume x t event w) = Panics msg) \<longleftrightarrow>
   (MixpanelEvent.Failure event = reporter_None \<and> Event event \<noteq> [] \<and>
    (\<exists>columns. Configs_GetColumnsForEvent t (Event event) = Inr columns) \<and>
    Decode x (Properties event) = Inr None)"
proof (cases "MixpanelEvent.Failure event \<noteq> reporter_None")
  case True
  then show ?thesis by (simp add: Consume_def Let_def)
next
  case False
  obtain o1 w1 where tr: "transform x t event w = (o1, w1)" by (cases "transform x t event w")
  have p: "(\<exists>msg. o1 = Panics msg) \<longleftrightarrow>
        (Event event \<noteq> [] \<and>
         (\<exists>columns. Configs_GetColumnsForEvent t (Event event) = Inr columns) \<and>
         Decode x (Properties event) = Inr None)"
    using tr by (auto simp: transform_def Let_def split: if_splits sum.splits option.splits)
  show ?thesis
  proof (cases o1)
    case (Panics msg)
    then show ?thesis using False tr p by (simp add: Consume_def Let_def)
  next
    case (Returns res)
    obtain line kv err where res: "res = (line, kv, err)" by (cases res)
    have "\<exists>r. fst (Consume x t event w) = Returns r"
    proof (cases err)
      case None
      then show ?thesis using False tr Returns res by (simp add: Consume_def Let_def)
    next
      case (Some e)
      then show ?thesis using False tr Returns res
        by (cases e) (simp_all add: Consume_def Let_def)
    qed
    then show ?thesis using p Returns by auto
  qed
qed

text \<open>
  Claim C10 does not hold of the code.  The event \<open>login\<close> has a schema and arrives
  without failure, and its property bytes are the JSON value \<open>null\<close>.  The decoder
  returns no error and leaves the nil map, \<open>temp["time"] = event.EventTime\<close> panics in
  \<open>transform\<close>, and \<open>Consume\<close>, which does not recover, returns no request.
\<close>

theorem Consume_panics_on_null_properties:
  "fst (Consume (test_externals (Inr None)) (test_transformer []) (test_event ''null'') (test_world ()))
     = Panics ''assignment to entry in nil map'' \<and>
   Event (test_event ''null'') = ''login'' \<and>
   Properties (test_event ''null'') = ''null'' \<and>
   MixpanelEvent.Failure (test_event ''null'') = reporter_None \<and>
   Configs_GetColumnsForEvent (test_transformer []) ''login'' = Inr [] \<and>
   Decode (test_externals (Inr None)) ''null'' = Inr None"
proof -
  let ?x = "test_externals (Inr None)"
  let ?t = "test_transformer [] :: unit RedshiftTransformer"
  have tr: "fst (transform ?x ?t (test_event ''null'') (test_world ())) =
              Panics ''assignment to entry in nil map''"
    by (simp add: transform_def test_externals_def test_transformer_def test_event_def)
  have f: "MixpanelEvent.Failure (test_event ''null'') = reporter_None"
    by (simp add: test_event_def)
  show ?thesis
    using Consume_Panics[OF f tr]
    by (simp add: test_event_def test_transformer_def test_externals_def)
qed

section \<open>The unix timestamp formatter\<close>

lemma Trunc_lower: "timeLowerBound \<le> Trunc i \<longleftrightarrow> 1000000000 \<le> i"
  unfolding Trunc_def timeLowerBound_def
  by (auto simp: le_floor_iff le_ceiling_iff)

lemma Trunc_upper: "Trunc i \<le> fiveDigitYearCutoff \<longleftrightarrow> i < 13140000001"
  unfolding Trunc_def fiveDigitYearCutoff_def
  by (auto simp: floor_le_iff ceiling_le_iff)

lemma Trunc_nonneg: "0 \<le> i \<Longrightarrow> Trunc i = \<lfloor>i\<rfloor>"
  by (simp add: Trunc_def)

text \<open>
  \<open>Format\<close> with the layout \<open>RedshiftDatetimeIngestString\<close>, chunk by chunk, is the
  timestamp text of the local seconds and the nanoseconds of the instant.
\<close>

lemma fl_year: "formatLayout c (CHR ''2'' # CHR ''0'' # CHR ''0'' # CHR ''6'' # r) = pad4 (cYear c) @ formatLayout c r"
  by (subst formatLayout.simps) simp

lemma fl_month: "formatLayout c (CHR ''0'' # CHR ''1'' # r) = pad2 (cMonth c) @ formatLayout c r"
  by (subst formatLayout.simps) simp

lemma fl_day: "formatLayout c (CHR ''0'' # CHR ''2'' # r) = pad2 (cDay c) @ formatLayout c r"
  by (subst formatLayout.simps) simp

lemma fl_hour: "formatLayout c (CHR ''1'' # CHR ''5'' # r) = pad2 (cHour c) @ formatLayout c r"
  by (subst formatLayout.simps) simp

lemma fl_minute: "formatLayout c (CHR ''0'' # CHR ''4'' # r) = pad2 (cMinute c) @ formatLayout c r"
  by (subst formatLayout.simps) simp

lemma fl_second: "formatLayout c (CHR ''0'' # CHR ''5'' # r) = pad2 (cSecond c) @ formatLayout c r"
  by (subst formatLayout.simps) simp

lemma fl_frac: "formatLayout c (CHR ''.'' # CHR ''9'' # CHR ''9'' # CHR ''9'' # r) =
                  stdFracSecond9 3 (cNanosecond c) @ formatLayout c r"
  by (subst formatLayout.simps) simp

lemma fl_lit:
  "ch = CHR ''-'' \<or> ch = CHR '' '' \<or> ch = CHR '':'' \<Longrightarrow> formatLayout c (ch # r) = ch # formatLayout c r"
  by (subst formatLayout.simps) auto

lemma fl_nil: "formatLayout c [] = []"
  by (subst formatLayout.simps) simp

lemma formatLayout_Redshift:
  "formatLayout c RedshiftDatetimeIngestString =
     pad4 (cYear c) @ ''-'' @ pad2 (cMonth c) @ ''-'' @ pad2 (cDay c) @ '' '' @
     pad2 (cHour c) @ '':'' @ pad2 (cMinute c) @ '':'' @ pad2 (cSecond c) @
     stdFracSecond9 3 (cNanosecond c)"
  by (simp add: RedshiftDatetimeIngestString_def fl_year fl_month fl_day fl_hour fl_minute
        fl_second fl_frac fl_lit fl_nil)

lemma upt_9: "[0..<9] = [0, 1, 2, 3, 4, 5, 6, 7, 8::nat]"
  by code_simp

lemma stdFracSecond9_millis:
  "stdFracSecond9 3 ns =
     (let millis = ns div 1000000;
          fff = trimZeros [digit (millis div 100), digit (millis div 10), digit millis]
      in if fff = [] then [] else CHR ''.'' # fff)"
proof -
  have "take 3 (map (\<lambda>k. digit (ns div 10 ^ (8 - k))) [0..<9]) =
          [digit (ns div 100000000), digit (ns div 10000000), digit (ns div 1000000)]"
    unfolding upt_9 by simp
  moreover have "ns div 1000000 div 100 = ns div 100000000" "ns div 1000000 div 10 = ns div 10000000"
    by (simp_all add: div_mult2_eq[symmetric])
  ultimately show ?thesis by (simp add: stdFracSecond9_def Let_def)
qed

lemma Time_Format_timestampText:
  "Time_Format lib t RedshiftDatetimeIngestString =
     timestampText (unixSec t + zoneOffset lib (loc t) (unixSec t)) (nsec t)"
proof -
  obtain y m d where
    c: "civil_from_days ((unixSec t + zoneOffset lib (loc t) (unixSec t)) div 86400) = (y, m, d)"
    by (cases "civil_from_days ((unixSec t + zoneOffset lib (loc t) (unixSec t)) div 86400)")
  have civ: "Time_civil lib t =
      \<lparr>cYear = y, cMonth = m, cDay = d,
       cHour = (unixSec t + zoneOffset lib (loc t) (unixSec t)) mod 86400 div 3600,
       cMinute = (unixSec t + zoneOffset lib (loc t) (unixSec t)) mod 86400 mod 3600 div 60,
       cSecond = (unixSec t + zoneOffset lib (loc t) (unixSec t)) mod 86400 mod 60,
       cNanosecond = nsec t\<rparr>"
    unfolding Time_civil_def Let_def c by simp
  show ?thesis
    unfolding Time_Format_def formatLayout_Redshift civ timestampText_def Let_def c
              stdFracSecond9_millis
    by simp
qed

lemma unix_accepted:
  assumes "Float64 lib t = Inr i" "1000000000 \<le> i" "i < 13140000001"
  shows "genTimeFormat lib ''unix'' (VNumber t) =
           (timestampText (\<lfloor>i\<rfloor> + zoneOffset lib (Location ''America/Los_Angeles'') \<lfloor>i\<rfloor>)
              \<lfloor>(i - of_int \<lfloor>i\<rfloor>) * 1000000000\<rfloor>, None)"
proof -
  have tr: "Trunc i = \<lfloor>i\<rfloor>" using assms(2) by (simp add: Trunc_def)
  have lo: "timeLowerBound \<le> \<lfloor>i\<rfloor>" using Trunc_lower[of i] assms(2) tr by simp
  have hi: "\<lfloor>i\<rfloor> \<le> fiveDigitYearCutoff" using Trunc_upper[of i] assms(3) tr by simp
  define frac where "frac = (i - of_int \<lfloor>i\<rfloor>) * 1000000000"
  have f0: "0 \<le> frac" unfolding frac_def by (simp add: of_int_floor_le)
  have "i - of_int \<lfloor>i\<rfloor> < 1" by linarith
  then have f1: "frac < 1000000000" unfolding frac_def by simp
  have n0: "0 \<le> \<lfloor>frac\<rfloor>" using f0 by simp
  have n1: "\<lfloor>frac\<rfloor> < 1000000000" using f1 by (simp add: floor_less_iff)
  have tf: "Trunc frac = \<lfloor>frac\<rfloor>" using f0 by (simp add: Trunc_def)
  have ti: "Trunc (of_int \<lfloor>i\<rfloor>) = \<lfloor>i\<rfloor>" by (simp add: Trunc_def)
  have u: "time_Unix \<lfloor>i\<rfloor> \<lfloor>frac\<rfloor> = \<lparr>unixSec = \<lfloor>i\<rfloor>, nsec = \<lfloor>frac\<rfloor>, loc = Local\<rparr>"
    using n0 n1 by (simp add: time_Unix_def)
  have "genTimeFormat lib ''unix'' (VNumber t) = genUnixTimeFormat lib PST (VNumber t)"
    by (simp add: genTimeFormat_def)
  also have "\<dots> = (Time_Format lib
                       (Time_In (time_Unix (Trunc (of_int (Trunc i)))
                                   (Trunc ((i - of_int (Trunc i)) * 1000000000))) PST)
                       RedshiftDatetimeIngestString, None)"
    using assms(1) lo hi tr by (simp add: genUnixTimeFormat_def Let_def)
  also have "time_Unix (Trunc (of_int (Trunc i))) (Trunc ((i - of_int (Trunc i)) * 1000000000)) =
               \<lparr>unixSec = \<lfloor>i\<rfloor>, nsec = \<lfloor>frac\<rfloor>, loc = Local\<rparr>"
    unfolding tr ti frac_def[symmetric] tf by (rule u)
  finally show ?thesis
    by (simp add: Time_Format_timestampText Time_In_def PST_def frac_def)
qed

lemma unix_instant:
  "Time_Format lib
     (Time_In (time_Unix \<lfloor>i\<rfloor> \<lfloor>(i - of_int \<lfloor>i\<rfloor>) * 1000000000\<rfloor>) (Location ''America/Los_Angeles''))
     ''2006-01-02 15:04:05.999'' =
   timestampText (\<lfloor>i\<rfloor> + zoneOffset lib (Location ''America/Los_Angeles'') \<lfloor>i\<rfloor>)
     \<lfloor>(i - of_int \<lfloor>i\<rfloor>) * 1000000000\<rfloor>"
  for i :: rat
proof -
  define frac where "frac = (i - of_int \<lfloor>i\<rfloor>) * 1000000000"
  have f0: "0 \<le> frac" unfolding frac_def by (simp add: of_int_floor_le)
  have "i - of_int \<lfloor>i\<rfloor> < 1" by linarith
  then have f1: "frac < 1000000000" unfolding frac_def by simp
  have n0: "0 \<le> \<lfloor>frac\<rfloor>" using f0 by simp
  have n1: "\<lfloor>frac\<rfloor> < 1000000000" using f1 by (simp add: floor_less_iff)
  have u: "time_Unix \<lfloor>i\<rfloor> \<lfloor>frac\<rfloor> = \<lparr>unixSec = \<lfloor>i\<rfloor>, nsec = \<lfloor>frac\<rfloor>, loc = Local\<rparr>"
    using n0 n1 by (simp add: time_Unix_def)
  have l: "''2006-01-02 15:04:05.999'' = RedshiftDatetimeIngestString"
    by (simp add: RedshiftDatetimeIngestString_def)
  show ?thesis
    unfolding frac_def[symmetric] u l Time_Format_timestampText by (simp add: Time_In_def)
qed

lemma unix_rejected:
  assumes "Float64 lib t = Inr i" "i < 1000000000 \<or> 13140000001 \<le> i"
  shows "genTimeFormat lib ''unix'' (VNumber t) = ([], Some (GenError (VNumber t) ''Time: unix''))"
proof -
  have "Trunc i < timeLowerBound \<or> fiveDigitYearCutoff < Trunc i"
    using Trunc_lower[of i] Trunc_upper[of i] assms(2) by auto
  then show ?thesis using assms(1)
    by (auto simp: genTimeFormat_def genUnixTimeFormat_def Let_def)
qed

text \<open>
  Claim C5, as the code has it.  The formatter of the format \<open>unix\<close> fails when its
  argument is not a \<open>json.Number\<close>, when the number does not convert to a binary64
  number, and when the converted number \<open>i\<close> is below \<open>1e9\<close> or not below \<open>1.314e10 + 1\<close>:
  the bounds are checked on the whole seconds of \<open>i\<close>, so the fractional seconds after
  \<open>1.314e10\<close> are accepted.  In every other case it returns
  \<open>time.Unix(seconds, nanos).In(America/Los_Angeles).Format("2006-01-02 15:04:05.999")\<close>
  for the whole seconds of \<open>i\<close> and the nanoseconds of its fraction, and that is the
  timestamp text of the seconds moved by the zone's offset, with the milliseconds of the
  fraction.
\<close>

theorem genUnixTimeFormat_accepts:
  "((\<forall>t. arg0 \<noteq> VNumber t) \<longrightarrow>
      genTimeFormat lib ''unix'' arg0 = ([], Some (GenError arg0 ''Time: unix''))) \<and>
   (\<forall>t err. arg0 = VNumber t \<and> Float64 lib t = Inl err \<longrightarrow>
      genTimeFormat lib ''unix'' arg0 = ([], Some err)) \<and>
   (\<forall>t i. arg0 = VNumber t \<and> Float64 lib t = Inr i \<and> (i < 1000000000 \<or> 13140000001 \<le> i) \<longrightarrow>
      genTimeFormat lib ''unix'' arg0 = ([], Some (GenError arg0 ''Time: unix''))) \<and>
   (\<forall>t i. arg0 = VNumber t \<and> Float64 lib t = Inr i \<and> 1000000000 \<le> i \<and> i < 13140000001 \<longrightarrow>
      genTimeFormat lib ''unix'' arg0 =
        (Time_Format lib
           (Time_In (time_Unix \<lfloor>i\<rfloor> \<lfloor>(i - of_int \<lfloor>i\<rfloor>) * 1000000000\<rfloor>)
              (Location ''America/Los_Angeles''))
           ''2006-01-02 15:04:05.999'', None) \<and>
      Time_Format lib
        (Time_In (time_Unix \<lfloor>i\<rfloor> \<lfloor>(i - of_int \<lfloor>i\<rfloor>) * 1000000000\<rfloor>)
           (Location ''America/Los_Angeles''))
        ''2006-01-02 15:04:05.999'' =
      timestampText (\<lfloor>i\<rfloor> + zoneOffset lib (Location ''America/Los_Angeles'') \<lfloor>i\<rfloor>)
        \<lfloor>(i - of_int \<lfloor>i\<rfloor>) * 1000000000\<rfloor>)"
proof (intro conjI allI impI)
  assume "\<forall>t. arg0 \<noteq> VNumber t"
  then show "genTimeFormat lib ''unix'' arg0 = ([], Some (GenError arg0 ''Time: unix''))"
    by (cases arg0) (simp_all add: genTimeFormat_def genUnixTimeFormat_def)
next
  fix t err assume "arg0 = VNumber t \<and> Float64 lib t = Inl err"
  then show "genTimeFormat lib ''unix'' arg0 = ([], Some err)"
    by (simp add: genTimeFormat_def genUnixTimeFormat_def)
next
  fix t i assume "arg0 = VNumber t \<and> Float64 lib t = Inr i \<and> (i < 1000000000 \<or> 13140000001 \<le> i)"
  then show "genTimeFormat lib ''unix'' arg0 = ([], Some (GenError arg0 ''Time: unix''))"
    using unix_rejected by blast
next
  fix t i assume "arg0 = VNumber t \<and> Float64 lib t = Inr i \<and> 1000000000 \<le> i \<and> i < 13140000001"
  then have "genTimeFormat lib ''unix'' arg0 =
        (timestampText (\<lfloor>i\<rfloor> + zoneOffset lib (Location ''America/Los_Angeles'') \<lfloor>i\<rfloor>)
           \<lfloor>(i - of_int \<lfloor>i\<rfloor>) * 1000000000\<rfloor>, None)"
    using unix_accepted by blast
  then show "genTimeFormat lib ''unix'' arg0 =
        (Time_Format lib
           (Time_In (time_Unix \<lfloor>i\<rfloor> \<lfloor>(i - of_int \<lfloor>i\<rfloor>) * 1000000000\<rfloor>)
              (Location ''America/Los_Angeles''))
           ''2006-01-02 15:04:05.999'', None)"
    unfolding unix_instant .
next
  fix i :: rat
  show "Time_Format lib
        (Time_In (time_Unix \<lfloor>i\<rfloor> \<lfloor>(i - of_int \<lfloor>i\<rfloor>) * 1000000000\<rfloor>)
           (Location ''America/Los_Angeles''))
        ''2006-01-02 15:04:05.999'' =
      timestampText (\<lfloor>i\<rfloor> + zoneOffset lib (Location ''America/Los_Angeles'') \<lfloor>i\<rfloor>)
        \<lfloor>(i - of_int \<lfloor>i\<rfloor>) * 1000000000\<rfloor>"
    by (rule unix_instant)
qed

lemma parse_instances:
  "parseDecimal ''1380585602'' = Inr 1380585602"
  "parseDecimal ''1380585602.5'' = Inr (2761171205 / 2)"
  "parseDecimal ''999999999'' = Inr 999999999"
  "parseDecimal ''13140000000.5'' = Inr (26280000001 / 2)"
  "parseDecimal ''1e999'' = Inl (ErrorsNew ''invalid syntax'')"
  by (simp_all add: parseDecimal_def)

lemma text_instances:
  "timestampText 1380560402 0 = ''2013-09-30 17:00:02''"
  "timestampText 1380560402 500000000 = ''2013-09-30 17:00:02.5''"
  "timestampText 13139974800 500000000 = ''2386-05-23 01:00:00.5''"
  by code_simp+

lemma floor_instances:
  "\<lfloor>2761171205 / 2 :: rat\<rfloor> = 1380585602"
  "\<lfloor>26280000001 / 2 :: rat\<rfloor> = 13140000000"
  by (simp_all add: floor_eq_iff)

lemma test_timelib_simps:
  "Float64 test_timelib = parseDecimal"
  "zoneOffset test_timelib (Location ''America/Los_Angeles'') s = - 25200"
  by (simp_all add: test_timelib_def PST_def)

theorem genUnixTimeFormat_accepts_witness:
  "genTimeFormat test_timelib ''unix'' (VNumber ''1380585602'') = (''2013-09-30 17:00:02'', None) \<and>
   genTimeFormat test_timelib ''unix'' (VNumber ''1380585602.5'') = (''2013-09-30 17:00:02.5'', None) \<and>
   genTimeFormat test_timelib ''unix'' (VString ''1380585602'')
     = ([], Some (GenError (VString ''1380585602'') ''Time: unix'')) \<and>
   genTimeFormat test_timelib ''unix'' (VNumber ''999999999'')
     = ([], Some (GenError (VNumber ''999999999'') ''Time: unix'')) \<and>
   genTimeFormat test_timelib ''unix'' (VNumber ''1e999'')
     = ([], Some (ErrorsNew ''invalid syntax''))"
proof -
  note A = genUnixTimeFormat_accepts[of "VNumber ''1380585602''" test_timelib,
             THEN conjunct2, THEN conjunct2, THEN conjunct2, rule_format,
             of "''1380585602''" 1380585602]
  note B = genUnixTimeFormat_accepts[of "VNumber ''1380585602.5''" test_timelib,
             THEN conjunct2, THEN conjunct2, THEN conjunct2, rule_format,
             of "''1380585602.5''" "2761171205 / 2"]
  note C = genUnixTimeFormat_accepts[of "VString ''1380585602''" test_timelib,
             THEN conjunct1, rule_format]
  note D = genUnixTimeFormat_accepts[of "VNumber ''999999999''" test_timelib,
             THEN conjunct2, THEN conjunct2, THEN conjunct1, rule_format,
             of "''999999999''" 999999999]
  note E = genUnixTimeFormat_accepts[of "VNumber ''1e999''" test_timelib,
             THEN conjunct2, THEN conjunct1, rule_format,
             of "''1e999''" "ErrorsNew ''invalid syntax''"]
  have a: "genTimeFormat test_timelib ''unix'' (VNumber ''1380585602'') = (''2013-09-30 17:00:02'', None)"
    using A by (simp add: test_timelib_simps parse_instances text_instances)
  have b: "genTimeFormat test_timelib ''unix'' (VNumber ''1380585602.5'') = (''2013-09-30 17:00:02.5'', None)"
    using B by (simp add: test_timelib_simps parse_instances floor_instances text_instances)
  have c: "genTimeFormat test_timelib ''unix'' (VString ''1380585602'')
     = ([], Some (GenError (VString ''1380585602'') ''Time: unix''))"
    using C by simp
  have d: "genTimeFormat test_timelib ''unix'' (VNumber ''999999999'')
     = ([], Some (GenError (VNumber ''999999999'') ''Time: unix''))"
    using D by (simp add: test_timelib_simps parse_instances)
  have e: "genTimeFormat test_timelib ''unix'' (VNumber ''1e999'') = ([], Some (ErrorsNew ''invalid syntax''))"
    using E by (simp add: test_timelib_simps parse_instances)
  show ?thesis using a b c d e by simp
qed

text \<open>
  The number 13140000000.5 lies outside the range from \<open>1e9\<close> to \<open>1.314e10\<close>, and the
  formatter returns a timestamp for it, not an error.
\<close>

theorem genUnixTimeFormat_above_range:
  "genTimeFormat test_timelib ''unix'' (VNumber ''13140000000.5'')
     = (''2386-05-23 01:00:00.5'', None) \<and>
   Float64 test_timelib ''13140000000.5'' = Inr (26280000001 / 2) \<and>
   (13140000000 :: rat) < 26280000001 / 2"
proof -
  have f: "Float64 test_timelib ''13140000000.5'' = Inr (26280000001 / 2)"
    by (simp add: test_timelib_simps parse_instances)
  have "genTimeFormat test_timelib ''unix'' (VNumber ''13140000000.5'')
          = (''2386-05-23 01:00:00.5'', None)"
    using unix_accepted[OF f]
    by (simp add: test_timelib_simps floor_instances text_instances)
  then show ?thesis using f by simp
qed

section \<open>\<open>GetMetadataValueByType\<close>\<close>

text \<open>
  Claim C9, as the code has it.  A metadata type that is neither \<open>COMMENT\<close> nor
  \<open>EDGE_TYPE\<close> gives the error of type \<open>ErrInvalidMetadataType\<close>, whatever the snapshot
  holds.  For one of the two types, a row of the snapshot for the event and the type
  gives its \<open>MetadataValue\<close> and no error; when the event or the row is absent, the
  error is the bare \<open>errors.New("Not found")\<close>, which has no type of its own.
\<close>

theorem GetMetadataValueByType_results:
  "(metadataType \<noteq> COMMENT \<and> metadataType \<noteq> EDGE_TYPE' \<longrightarrow>
      GetMetadataValueByType COMMENT EDGE_TYPE' Metadata eventName metadataType =
        ('''', Some (ErrInvalidMetadataType (eventName @ '' is not being tracked'')))) \<and>
   ((metadataType = COMMENT \<or> metadataType = EDGE_TYPE') \<longrightarrow>
      (\<forall>eventMetadata row. Metadata eventName = Some eventMetadata \<and> eventMetadata metadataType = Some row \<longrightarrow>
         GetMetadataValueByType COMMENT EDGE_TYPE' Metadata eventName metadataType =
           (MetadataValue row, None)) \<and>
      ((Metadata eventName = None \<or>
        (\<exists>eventMetadata. Metadata eventName = Some eventMetadata \<and> eventMetadata metadataType = None)) \<longrightarrow>
         GetMetadataValueByType COMMENT EDGE_TYPE' Metadata eventName metadataType =
           ('''', Some (ErrorsNew ''Not found'')) \<and> \<not> typedError (ErrorsNew ''Not found'')))"
  by (auto simp: GetMetadataValueByType_def typedError_def)

theorem GetMetadataValueByType_results_witness:
  "GetMetadataValueByType ''comment'' ''edge_type''
      (map_of [(''test-event'', map_of [(''edge_type'', \<lparr>MetadataValue = ''internal''\<rparr>)])])
      ''test-event'' ''edge_type'' = (''internal'', None) \<and>
   GetMetadataValueByType ''comment'' ''edge_type''
      (map_of [(''test-event'', map_of [(''edge_type'', \<lparr>MetadataValue = ''internal''\<rparr>)])])
      ''test-event'' ''owner'' = ('''', Some (ErrInvalidMetadataType ''test-event is not being tracked'')) \<and>
   GetMetadataValueByType ''comment'' ''edge_type''
      (map_of [(''test-event'', map_of [(''edge_type'', \<lparr>MetadataValue = ''internal''\<rparr>)])])
      ''test-event'' ''comment'' = ('''', Some (ErrorsNew ''Not found'')) \<and>
   GetMetadataValueByType ''comment'' ''edge_type''
      (map_of [(''test-event'', map_of [(''edge_type'', \<lparr>MetadataValue = ''internal''\<rparr>)])])
      ''login'' ''comment'' = ('''', Some (ErrorsNew ''Not found''))"
  using GetMetadataValueByType_results[of "''edge_type''" "''comment''" "''edge_type''"
          "map_of [(''test-event'', map_of [(''edge_type'', \<lparr>MetadataValue = ''internal''\<rparr>)])]" "''test-event''"]
        GetMetadataValueByType_results[of "''owner''" "''comment''" "''edge_type''"
          "map_of [(''test-event'', map_of [(''edge_type'', \<lparr>MetadataValue = ''internal''\<rparr>)])]" "''test-event''"]
        GetMetadataValueByType_results[of "''comment''" "''comment''" "''edge_type''"
          "map_of [(''test-event'', map_of [(''edge_type'', \<lparr>MetadataValue = ''internal''\<rparr>)])]" "''test-event''"]
        GetMetadataValueByType_results[of "''comment''" "''comment''" "''edge_type''"
          "map_of [(''test-event'', map_of [(''edge_type'', \<lparr>MetadataValue = ''internal''\<rparr>)])]" "''login''"]
  by simp

text \<open>
  The event \<open>login\<close> is in the snapshot without a row for \<open>comment\<close>: the error returned
  is the bare \<open>Not found\<close>, not an error of a type of its own.
\<close>

theorem GetMetadataValueByType_not_found_untyped:
  "GetMetadataValueByType ''comment'' ''edge_type''
      (map_of [(''login'', (map_of [] :: string \<rightharpoonup> EventMetadataRow))]) ''login'' ''comment''
     = ('''', Some (ErrorsNew ''Not found'')) \<and>
   \<not> typedError (ErrorsNew ''Not found'')"
  by (simp add: GetMetadataValueByType_def typedError_def)


end
